theory Spec2Isabelle
  imports Main "HOL-Library.Multiset"
begin

section \<open>Strings and the character classes of the regular expressions\<close>

text \<open>
  JavaScript strings are modelled as \<^typ>\<open>string\<close>: one \<^typ>\<open>char\<close> per code unit,
  for texts whose code units are below 256. In that range the white space class
  \<^verbatim>\<open>\s\<close> (also what \<^verbatim>\<open>trim\<close> strips) is tab, line feed, vertical tab, form feed,
  carriage return, space and no-break space; the line terminators (what \<^verbatim>\<open>.\<close> refuses
  and what \<^verbatim>\<open>^\<close> and \<^verbatim>\<open>$\<close> look at under the \<^verbatim>\<open>m\<close> flag) are line feed and
  carriage return; \<^verbatim>\<open>\w\<close> is \<^verbatim>\<open>[A-Za-z0-9_]\<close>.
\<close>

definition isLineTerminator :: "char \<Rightarrow> bool" where
  "isLineTerminator c = (c = CHR 0x0A \<or> c = CHR 0x0D)"

definition isWhiteSpace :: "char \<Rightarrow> bool" where
  "isWhiteSpace c =
     (c = CHR 0x09 \<or> c = CHR 0x0A \<or> c = CHR 0x0B \<or> c = CHR 0x0C \<or> c = CHR 0x0D \<or>
      c = CHR 0x20 \<or> c = CHR 0xA0)"

definition isWordChar :: "char \<Rightarrow> bool" where
  "isWordChar c =
     (let n = (of_char c :: nat)
      in (65 \<le> n \<and> n \<le> 90) \<or> (97 \<le> n \<and> n \<le> 122) \<or> (48 \<le> n \<and> n \<le> 57) \<or> n = 95)"

text \<open>The class \<^verbatim>\<open>[a-zA-Z0-9_\-\s]\<close> of the inline tag pattern.\<close>

definition isTagChar :: "char \<Rightarrow> bool" where
  "isTagChar c = (isWordChar c \<or> c = CHR ''-'' \<or> isWhiteSpace c)"

definition notLineTerminator :: "char \<Rightarrow> bool" where
  "notLineTerminator c = (\<not> isLineTerminator c)"

definition trim :: "string \<Rightarrow> string" where
  "trim s = rev (dropWhile isWhiteSpace (rev (dropWhile isWhiteSpace s)))"

definition startsWith :: "string \<Rightarrow> string \<Rightarrow> bool" where
  "startsWith s p = (take (length p) s = p)"

definition endsWith :: "string \<Rightarrow> string \<Rightarrow> bool" where
  "endsWith s p = (length p \<le> length s \<and> drop (length s - length p) s = p)"

text \<open>\<^verbatim>\<open>s.includes(t)\<close>: \<open>t\<close> occurs in \<open>s\<close> as a contiguous run.\<close>

fun includesStr :: "string \<Rightarrow> string \<Rightarrow> bool" where
  "includesStr [] t = (t = [])"
| "includesStr (c # cs) t = (startsWith (c # cs) t \<or> includesStr cs t)"

text \<open>\<^verbatim>\<open>s.replace(/x/g, y)\<close> for single characters \<open>x\<close> and \<open>y\<close>.\<close>

definition replaceChar :: "char \<Rightarrow> char \<Rightarrow> string \<Rightarrow> string" where
  "replaceChar x y s = map (\<lambda>c. if c = x then y else c) s"

text \<open>
  \<^verbatim>\<open>s.replace(p, '')\<close> with a string pattern: the first occurrence of \<open>p\<close> is removed
  (the empty pattern occurs at the start and removes nothing).
\<close>

fun removeFirst :: "string \<Rightarrow> string \<Rightarrow> string" where
  "removeFirst p [] = []"
| "removeFirst p (c # cs) =
     (if startsWith (c # cs) p then drop (length p) (c # cs) else c # removeFirst p cs)"

text \<open>\<^verbatim>\<open>s.split('\n')\<close> for a one-character separator.\<close>

fun splitOn :: "char \<Rightarrow> string \<Rightarrow> string list" where
  "splitOn d [] = [[]]"
| "splitOn d (c # cs) =
     (if c = d then [] # splitOn d cs
      else (case splitOn d cs of [] \<Rightarrow> [[c]] | l # ls \<Rightarrow> (c # l) # ls))"

text \<open>
  \<^verbatim>\<open>toLowerCase\<close> on code units below 256: the letters A to Z and the accented capitals
  0xC0 to 0xDE (the multiplication sign 0xD7 apart) move up by 32.
\<close>

definition lowerChar :: "char \<Rightarrow> char" where
  "lowerChar c =
     (let n = (of_char c :: nat)
      in if (65 \<le> n \<and> n \<le> 90) \<or> (192 \<le> n \<and> n \<le> 222 \<and> n \<noteq> 215)
         then char_of (n + 32) else c)"

definition toLowerCase :: "string \<Rightarrow> string" where
  "toLowerCase s = map lowerChar s"

section \<open>Values of the host\<close>

text \<open>
  What \<^verbatim>\<open>JSON.parse\<close> returns. A number is carried as the text JavaScript prints for
  it (the code never computes with one); an object lists its own properties, each key
  once.
\<close>

datatype json =
    JNull
  | JBool bool
  | JNumber string
  | JString string
  | JArray "json list"
  | JObject "(string \<times> json) list"

text \<open>
  A directory as \<^verbatim>\<open>readdir(dir, { withFileTypes: true })\<close> shows it, with the listing
  of every subdirectory beneath it: \<open>Unreadable\<close> is a directory whose \<^verbatim>\<open>readdir\<close>
  throws. An entry that is not a directory (a file, a link, a socket) is a \<open>FileEntry\<close>.
\<close>

datatype listing = Unreadable | Entries "dirent list"
  and dirent = FileEntry string | DirEntry string listing

record stats =
  st_mtime :: int
  st_size :: nat

text \<open>
  The host: the library functions the code calls (\<^verbatim>\<open>JSON.parse\<close> with \<open>None\<close> for
  a thrown SyntaxError, \<^verbatim>\<open>path.basename\<close>, \<^verbatim>\<open>path.join\<close>) and the file system
  (\<^verbatim>\<open>access\<close>, \<^verbatim>\<open>readdir\<close>, \<^verbatim>\<open>readFile\<close>, \<^verbatim>\<open>stat\<close>, with \<open>None\<close> and
  \<open>False\<close> for a rejected promise). Modification times are milliseconds, as
  \<^verbatim>\<open>getTime()\<close> reads them.
\<close>

record host =
  JSON_parse :: "string \<Rightarrow> json option"
  basename :: "string \<Rightarrow> string \<Rightarrow> string"
  join :: "string \<Rightarrow> string \<Rightarrow> string"
  access :: "string \<Rightarrow> bool"
  readdir :: "string \<Rightarrow> listing"
  readFile :: "string \<Rightarrow> string option"
  stat :: "string \<Rightarrow> stats option"

section \<open>The document parser\<close>

subsection \<open>extractTitle\<close>

text \<open>
  \<^verbatim>\<open>content.match(/^#\s+(.+)$/m)\<close>. After the \<^verbatim>\<open>#\<close>, \<^verbatim>\<open>\s+\<close> takes the longest run
  of white space, line terminators included, and gives characters back one at a time;
  \<^verbatim>\<open>(.+)\<close> then takes the longest run of characters that are not line terminators,
  where \<^verbatim>\<open>$\<close> always holds. \<open>h1Backtrack s k\<close> tries \<open>k\<close>, \<open>k - 1\<close>, ..., \<open>1\<close> characters
  for \<^verbatim>\<open>\s+\<close> and returns the group of the first success.
\<close>

fun h1Backtrack :: "string \<Rightarrow> nat \<Rightarrow> string option" where
  "h1Backtrack s 0 = None"
| "h1Backtrack s (Suc k) =
     (case drop (Suc k) s of
        [] \<Rightarrow> h1Backtrack s k
      | c # r \<Rightarrow>
          if isLineTerminator c then h1Backtrack s k
          else Some (takeWhile notLineTerminator (c # r)))"

definition h1After :: "string \<Rightarrow> string option" where
  "h1After s = h1Backtrack s (length (takeWhile isWhiteSpace s))"

text \<open>
  The search for the leftmost match: \<^verbatim>\<open>^\<close> holds at the start of the input and after
  a line terminator.
\<close>

fun h1Search :: "bool \<Rightarrow> string \<Rightarrow> string option" where
  "h1Search atLineStart [] = None"
| "h1Search atLineStart (c # cs) =
     (if atLineStart \<and> c = CHR ''#''
      then (case h1After cs of
              Some g \<Rightarrow> Some g
            | None \<Rightarrow> h1Search (isLineTerminator c) cs)
      else h1Search (isLineTerminator c) cs)"

definition h1Match :: "string \<Rightarrow> string option" where
  "h1Match content = h1Search True content"

definition extractTitle :: "host \<Rightarrow> string \<Rightarrow> string \<Rightarrow> string" where
  "extractTitle h content relativePath =
     (case h1Match content of
        Some g \<Rightarrow> trim g
      | None \<Rightarrow>
          replaceChar (CHR ''_'') (CHR '' '')
            (replaceChar (CHR ''-'') (CHR '' '') (basename h relativePath ''.md'')))"

subsection \<open>extractFrontmatter\<close>

text \<open>
  \<^verbatim>\<open>content.match(/^---\n([\s\S]*?)\n---/)\<close>: the input starts with the opening
  delimiter, and the lazy group is the shortest text after it that the closing
  \<^verbatim>\<open>\n---\<close> follows.
\<close>

fun lazyUntilClose :: "string \<Rightarrow> string option" where
  "lazyUntilClose [] = None"
| "lazyUntilClose (c # cs) =
     (if startsWith (c # cs) [CHR 0x0A, CHR ''-'', CHR ''-'', CHR ''-''] then Some []
      else map_option ((#) c) (lazyUntilClose cs))"

definition frontmatterMatch :: "string \<Rightarrow> string option" where
  "frontmatterMatch content =
     (if startsWith content [CHR ''-'', CHR ''-'', CHR ''-'', CHR 0x0A]
      then lazyUntilClose (drop 4 content) else None)"

text \<open>
  \<^verbatim>\<open>line.match(/^(\w+):\s*(.+)$/)\<close>, no flag: the key is the longest run of word
  characters (a shorter one is not followed by the colon), \<^verbatim>\<open>\s*\<close> gives white space
  back one character at a time, and \<^verbatim>\<open>(.+)\<close> has to reach the end of the line without
  meeting a line terminator (a carriage return is one).
\<close>

fun valueBacktrack :: "string \<Rightarrow> nat \<Rightarrow> string option" where
  "valueBacktrack s 0 =
     (if s \<noteq> [] \<and> list_all notLineTerminator s then Some s else None)"
| "valueBacktrack s (Suc k) =
     (if drop (Suc k) s \<noteq> [] \<and> list_all notLineTerminator (drop (Suc k) s)
      then Some (drop (Suc k) s) else valueBacktrack s k)"

definition lineMatch :: "string \<Rightarrow> (string \<times> string) option" where
  "lineMatch line =
     (let key = takeWhile isWordChar line; rest = dropWhile isWordChar line
      in if key = [] then None
         else (case rest of
                 [] \<Rightarrow> None
               | c # s \<Rightarrow>
                   if c = CHR '':''
                   then map_option (Pair key)
                          (valueBacktrack s (length (takeWhile isWhiteSpace s)))
                   else None))"

text \<open>
  \<^verbatim>\<open>value.replace(/^["']|["']$/g, '')\<close>: a quote at the start goes, and a quote at the
  end of what is left goes.
\<close>

definition isQuote :: "char \<Rightarrow> bool" where
  "isQuote c = (c = CHR 0x22 \<or> c = CHR 0x27)"

definition stripQuotes :: "string \<Rightarrow> string" where
  "stripQuotes v =
     (let v1 = (case v of [] \<Rightarrow> [] | c # cs \<Rightarrow> if isQuote c then cs else c # cs)
      in if v1 \<noteq> [] \<and> isQuote (last v1) then butlast v1 else v1)"

text \<open>
  The front-matter object: its own properties, the last assignment to a key first, and its
  prototype, which is \<^verbatim>\<open>Object.prototype\<close> at first. An assignment to \<^verbatim>\<open>__proto__\<close>
  reaches the setter of \<^verbatim>\<open>Object.prototype\<close> as long as the object has no own property
  of that name and still inherits the setter: not after the prototype was set to
  \<^verbatim>\<open>null\<close>, and not under a parsed object that has a \<^verbatim>\<open>__proto__\<close> property of its
  own. The setter makes no own property: an object or an array becomes the prototype,
  \<^verbatim>\<open>null\<close> removes it, any other value is ignored. Where the setter is not reached, the
  assignment makes an own property like any other.
\<close>

datatype prototype = ObjectPrototype | NullPrototype | Parsed json

record frontmatter =
  own :: "(string \<times> json) list"
  proto :: prototype

definition emptyFrontmatter :: frontmatter where
  "emptyFrontmatter = \<lparr>own = [], proto = ObjectPrototype\<rparr>"

definition reachesProtoSetter :: "frontmatter \<Rightarrow> bool" where
  "reachesProtoSetter fm =
     (map_of (own fm) ''__proto__'' = None \<and>
      (case proto fm of
         ObjectPrototype \<Rightarrow> True
       | NullPrototype \<Rightarrow> False
       | Parsed (JObject kvs) \<Rightarrow> map_of kvs ''__proto__'' = None
       | Parsed v \<Rightarrow> True))"

definition assign :: "frontmatter \<Rightarrow> string \<Rightarrow> json \<Rightarrow> frontmatter" where
  "assign fm key v =
     (if key = ''__proto__'' \<and> reachesProtoSetter fm
      then (case v of
              JObject kvs \<Rightarrow> fm\<lparr>proto := Parsed v\<rparr>
            | JArray xs \<Rightarrow> fm\<lparr>proto := Parsed v\<rparr>
            | JNull \<Rightarrow> fm\<lparr>proto := NullPrototype\<rparr>
            | _ \<Rightarrow> fm)
      else fm\<lparr>own := (key, v) # own fm\<rparr>)"

definition parseValue :: "host \<Rightarrow> string \<Rightarrow> json" where
  "parseValue h v =
     (case JSON_parse h v of Some j \<Rightarrow> j | None \<Rightarrow> JString (stripQuotes v))"

fun frontmatterLines :: "host \<Rightarrow> frontmatter \<Rightarrow> string list \<Rightarrow> frontmatter" where
  "frontmatterLines h fm [] = fm"
| "frontmatterLines h fm (line # ls) =
     (case lineMatch line of
        Some (key, v) \<Rightarrow> frontmatterLines h (assign fm key (parseValue h v)) ls
      | None \<Rightarrow> frontmatterLines h fm ls)"

definition extractFrontmatter :: "host \<Rightarrow> string \<Rightarrow> frontmatter" where
  "extractFrontmatter h content =
     (case frontmatterMatch content of
        Some block \<Rightarrow> frontmatterLines h emptyFrontmatter (splitOn (CHR 0x0A) block)
      | None \<Rightarrow> emptyFrontmatter)"

text \<open>
  \<^verbatim>\<open>frontmatter.tags\<close>: the own property, or else the property of the installed
  prototype when that is a parsed object that has it (an array has none).
\<close>

definition getTags :: "frontmatter \<Rightarrow> json option" where
  "getTags fm =
     (case map_of (own fm) ''tags'' of
        Some v \<Rightarrow> Some v
      | None \<Rightarrow> (case proto fm of Parsed (JObject kvs) \<Rightarrow> map_of kvs ''tags'' | _ \<Rightarrow> None))"

subsection \<open>extractTags\<close>

text \<open>
  The tags are gathered in a JavaScript \<^verbatim>\<open>Set\<close>, which keeps the order of insertion
  and ignores a value it already holds; \<^verbatim>\<open>Array.from\<close> reads it in that order.
\<close>

definition addTag :: "string list \<Rightarrow> string \<Rightarrow> string list" where
  "addTag tags t = (if t \<in> set tags then tags else tags @ [t])"

text \<open>
  Truthiness of a parsed value. A number is carried as JavaScript prints it, so zero is
  \<open>''0''\<close>.
\<close>

fun truthy :: "json \<Rightarrow> bool" where
  "truthy JNull = False"
| "truthy (JBool b) = b"
| "truthy (JNumber n) = (n \<noteq> ''0'')"
| "truthy (JString s) = (s \<noteq> [])"
| "truthy (JArray xs) = True"
| "truthy (JObject kvs) = True"

text \<open>\<^verbatim>\<open>Array.isArray(t) ? t : [t]\<close>\<close>

fun asArray :: "json \<Rightarrow> json list" where
  "asArray (JArray xs) = xs"
| "asArray v = [v]"

text \<open>\<^verbatim>\<open>tag.replace(/^#/, '')\<close>\<close>

fun stripHash :: "string \<Rightarrow> string" where
  "stripHash [] = []"
| "stripHash (c # cs) = (if c = CHR ''#'' then cs else c # cs)"

text \<open>The body of the \<^verbatim>\<open>forEach\<close>: only a value whose \<^verbatim>\<open>typeof\<close> is string is added.\<close>

fun addFrontmatterTag :: "string list \<Rightarrow> json \<Rightarrow> string list" where
  "addFrontmatterTag tags (JString s) = addTag tags (stripHash s)"
| "addFrontmatterTag tags v = tags"

text \<open>
  \<^verbatim>\<open>content.matchAll(/#([a-zA-Z0-9_\-\s]+)/g)\<close>: the groups of the matches, left to
  right. After a \<^verbatim>\<open>#\<close> the group is the longest run of class characters, and the
  search goes on behind it; a \<^verbatim>\<open>#\<close> with no class character behind it is passed over.
\<close>

function inlineTagMatches :: "string \<Rightarrow> string list" where
  "inlineTagMatches [] = []"
| "inlineTagMatches (c # cs) =
     (if c = CHR ''#'' \<and> takeWhile isTagChar cs \<noteq> []
      then takeWhile isTagChar cs # inlineTagMatches (dropWhile isTagChar cs)
      else inlineTagMatches cs)"
  by pat_completeness auto
termination
  by (relation "measure length") (auto simp: length_dropWhile_le le_imp_less_Suc)

text \<open>
  \<^verbatim>\<open>content.matchAll(/\[\[([^\]]+)\]\]/g)\<close>: after \<^verbatim>\<open>[[\<close> the group is the longest run
  of characters other than \<^verbatim>\<open>]\<close> (a shorter run is not followed by \<^verbatim>\<open>]\<close>), it is not
  empty, and \<^verbatim>\<open>]]\<close> closes it.
\<close>

definition notCloseBracket :: "char \<Rightarrow> bool" where
  "notCloseBracket c = (c \<noteq> CHR '']'')"

definition linkText :: "string \<Rightarrow> string" where
  "linkText cs = takeWhile notCloseBracket (drop 1 cs)"

definition afterLinkText :: "string \<Rightarrow> string" where
  "afterLinkText cs = dropWhile notCloseBracket (drop 1 cs)"

function wikiLinkMatches :: "string \<Rightarrow> string list" where
  "wikiLinkMatches [] = []"
| "wikiLinkMatches (c # cs) =
     (if c = CHR ''['' \<and> startsWith cs ''['' \<and> linkText cs \<noteq> [] \<and>
         startsWith (afterLinkText cs) '']]''
      then linkText cs # wikiLinkMatches (drop 2 (afterLinkText cs))
      else wikiLinkMatches cs)"
  by pat_completeness auto
termination
proof (relation "measure length")
  show "wf (measure length)" by simp
next
  fix c :: char and cs :: string
  have "length (dropWhile notCloseBracket (drop 1 cs)) \<le> length cs"
    by (rule order_trans [OF length_dropWhile_le]) simp
  then show "(drop 2 (afterLinkText cs), c # cs) \<in> measure length"
    by (simp add: afterLinkText_def)
next
  fix c :: char and cs :: string
  show "(cs, c # cs) \<in> measure length" by simp
qed

text \<open>A link target is kept when it holds neither a dot nor a slash.\<close>

definition addWikiLink :: "string list \<Rightarrow> string \<Rightarrow> string list" where
  "addWikiLink tags linkText' =
     (if \<not> includesStr linkText' ''.'' \<and> \<not> includesStr linkText' ''/''
      then addTag tags linkText' else tags)"

definition extractTags :: "string \<Rightarrow> frontmatter \<Rightarrow> string list" where
  "extractTags content fm =
     (let tags0 = (case getTags fm of
                     None \<Rightarrow> []
                   | Some v \<Rightarrow> if truthy v then foldl addFrontmatterTag [] (asArray v) else []);
          tags1 = foldl (\<lambda>tags m. addTag tags (trim m)) tags0 (inlineTagMatches content);
          tags2 = foldl addWikiLink tags1 (wikiLinkMatches content)
      in tags2)"

section \<open>The collection registry\<close>

datatype vaultType = Ghost | External

record VaultConfig =
  vault_name :: string
  vault_path :: string
  vault_enabled :: bool
  vault_type :: vaultType

record VaultNote =
  note_vault :: string
  note_path :: string
  note_title :: string
  note_content :: string
  note_tags :: "string list"
  note_frontmatter :: frontmatter
  note_lastModified :: int
  note_size :: nat

record MultiVaultManager =
  ghostVaultPath :: string
  externalVaults :: "VaultConfig list"

text \<open>The decimal text of the loop index in \<^verbatim>\<open>`VAULT_${i}_NAME`\<close>.\<close>

fun showNat :: "nat \<Rightarrow> string" where
  "showNat n =
     (if n < 10 then [char_of (48 + n)]
      else showNat (n div 10) @ [char_of (48 + n mod 10)])"

definition vaultKey :: "nat \<Rightarrow> string \<Rightarrow> string" where
  "vaultKey i field = ''VAULT_'' @ showNat i @ ''_'' @ field"

text \<open>
  One round of the loop of \<^verbatim>\<open>loadExternalVaults\<close> over \<^verbatim>\<open>process.env\<close>, a map from
  names to strings: the entry is pushed when the name and the path are set and not empty
  and the enabled variable is the text \<^verbatim>\<open>true\<close>.
\<close>

definition loadVault :: "(string \<rightharpoonup> string) \<Rightarrow> nat \<Rightarrow> VaultConfig list" where
  "loadVault env i =
     (case env (vaultKey i ''NAME'') of
        None \<Rightarrow> []
      | Some name \<Rightarrow>
          (case env (vaultKey i ''PATH'') of
             None \<Rightarrow> []
           | Some path \<Rightarrow>
               if name \<noteq> [] \<and> path \<noteq> [] \<and> env (vaultKey i ''ENABLED'') = Some ''true''
               then [\<lparr>vault_name = name, vault_path = path, vault_enabled = True,
                      vault_type = External\<rparr>]
               else []))"

definition loadExternalVaults :: "(string \<rightharpoonup> string) \<Rightarrow> VaultConfig list" where
  "loadExternalVaults env = concat (map (loadVault env) [1..<11])"

text \<open>The constructor.\<close>

definition newManager :: "(string \<rightharpoonup> string) \<Rightarrow> string \<Rightarrow> MultiVaultManager" where
  "newManager env path =
     \<lparr>ghostVaultPath = path, externalVaults = loadExternalVaults env\<rparr>"

definition ghostVault :: "MultiVaultManager \<Rightarrow> VaultConfig" where
  "ghostVault m =
     \<lparr>vault_name = ''Ghost AI Vault'', vault_path = ghostVaultPath m, vault_enabled = True,
      vault_type = Ghost\<rparr>"

definition getAllVaults :: "MultiVaultManager \<Rightarrow> VaultConfig list" where
  "getAllVaults m = ghostVault m # externalVaults m"

definition getExternalVaults :: "MultiVaultManager \<Rightarrow> VaultConfig list" where
  "getExternalVaults m = filter vault_enabled (externalVaults m)"

definition validateVault :: "host \<Rightarrow> VaultConfig \<Rightarrow> bool" where
  "validateVault h vault = access h (vault_path vault)"

section \<open>The collection scanner\<close>

text \<open>What the code writes to the console.\<close>

datatype logEntry =
    WarnNotAccessible string
  | ErrorReadingDirectory string
  | ErrorParsingNote string


text \<open>
  \<^verbatim>\<open>getMarkdownFiles(dir)\<close>, given the listing that \<^verbatim>\<open>readdir(dir)\<close> yields; the
  recursive call on a subdirectory is given the listing of that subdirectory.
  \<open>scanEntries\<close> is the loop over the entries.
\<close>

fun getMarkdownFiles :: "host \<Rightarrow> string \<Rightarrow> listing \<Rightarrow> string list \<times> logEntry list"
  and scanEntries :: "host \<Rightarrow> string \<Rightarrow> dirent list \<Rightarrow> string list \<times> logEntry list" where
  "getMarkdownFiles h dir Unreadable = ([], [ErrorReadingDirectory dir])"
| "getMarkdownFiles h dir (Entries es) = scanEntries h dir es"
| "scanEntries h dir [] = ([], [])"
| "scanEntries h dir (FileEntry name # es) =
     (if endsWith name ''.md''
      then (join h dir name # fst (scanEntries h dir es), snd (scanEntries h dir es))
      else scanEntries h dir es)"
| "scanEntries h dir (DirEntry name sub # es) =
     (if name = ''.obsidian'' \<or> name = ''.git'' then scanEntries h dir es
      else (fst (getMarkdownFiles h (join h dir name) sub) @ fst (scanEntries h dir es),
            snd (getMarkdownFiles h (join h dir name) sub) @ snd (scanEntries h dir es)))"

section \<open>Reading a collection\<close>

text \<open>\<^verbatim>\<open>.replace(/^\//, '')\<close>\<close>

fun stripLeadingSlash :: "string \<Rightarrow> string" where
  "stripLeadingSlash [] = []"
| "stripLeadingSlash (c # cs) = (if c = CHR ''/'' then cs else c # cs)"

text \<open>
  \<^verbatim>\<open>parseNoteFile\<close>: a failing \<^verbatim>\<open>readFile\<close> or \<^verbatim>\<open>stat\<close> is caught, logged, and
  \<^verbatim>\<open>null\<close> is returned.
\<close>

definition parseNoteFile ::
  "host \<Rightarrow> VaultConfig \<Rightarrow> string \<Rightarrow> VaultNote option \<times> logEntry list" where
  "parseNoteFile h vault filePath =
     (case readFile h filePath of
        None \<Rightarrow> (None, [ErrorParsingNote filePath])
      | Some content \<Rightarrow>
          (case stat h filePath of
             None \<Rightarrow> (None, [ErrorParsingNote filePath])
           | Some st \<Rightarrow>
               (let relativePath = stripLeadingSlash (removeFirst (vault_path vault) filePath);
                    title = extractTitle h content relativePath;
                    fm = extractFrontmatter h content;
                    tags = extractTags content fm
                in (Some \<lparr>note_vault = vault_name vault, note_path = relativePath,
                          note_title = title, note_content = content, note_tags = tags,
                          note_frontmatter = fm, note_lastModified = st_mtime st,
                          note_size = st_size st\<rparr>, []))))"

text \<open>The loop of \<^verbatim>\<open>readVaultNotes\<close> over the files.\<close>

fun parseFiles ::
  "host \<Rightarrow> VaultConfig \<Rightarrow> string list \<Rightarrow> VaultNote list \<times> logEntry list" where
  "parseFiles h vault [] = ([], [])"
| "parseFiles h vault (file # files) =
     (case parseNoteFile h vault file of
        (Some note, lg) \<Rightarrow>
          (note # fst (parseFiles h vault files), lg @ snd (parseFiles h vault files))
      | (None, lg) \<Rightarrow>
          (fst (parseFiles h vault files), lg @ snd (parseFiles h vault files)))"

definition readVaultNotes :: "host \<Rightarrow> VaultConfig \<Rightarrow> VaultNote list \<times> logEntry list" where
  "readVaultNotes h vault =
     (let scan = getMarkdownFiles h (vault_path vault) (readdir h (vault_path vault));
          parsed = parseFiles h vault (fst scan)
      in (fst parsed, snd scan @ snd parsed))"

section \<open>The cross-collection search\<close>

text \<open>
  The options of \<^verbatim>\<open>searchAllVaults\<close>; \<open>None\<close> is a field that is not supplied. A limit
  is an integer (\<^verbatim>\<open>NaN\<close>, which the code treats as a missing limit, is \<open>None\<close>).
\<close>

record searchOptions =
  opt_includeContent :: "bool option"
  opt_tags :: "string list option"
  opt_vaults :: "string list option"
  opt_limit :: "int option"

text \<open>
  \<^verbatim>\<open>options.vaults ? this.getAllVaults().filter(v => options.vaults!.includes(v.name))
  : this.getAllVaults()\<close>: every array is truthy, the empty one too.
\<close>

definition vaultsToSearch :: "MultiVaultManager \<Rightarrow> searchOptions \<Rightarrow> VaultConfig list" where
  "vaultsToSearch m opts =
     (case opt_vaults opts of
        Some names \<Rightarrow> filter (\<lambda>v. vault_name v \<in> set names) (getAllVaults m)
      | None \<Rightarrow> getAllVaults m)"

text \<open>The loop of \<^verbatim>\<open>searchAllVaults\<close> over the collections to search.\<close>

fun collectNotes :: "host \<Rightarrow> VaultConfig list \<Rightarrow> VaultNote list \<times> logEntry list" where
  "collectNotes h [] = ([], [])"
| "collectNotes h (vault # vs) =
     (if \<not> validateVault h vault
      then (fst (collectNotes h vs), WarnNotAccessible (vault_name vault) # snd (collectNotes h vs))
      else (fst (readVaultNotes h vault) @ fst (collectNotes h vs),
            snd (readVaultNotes h vault) @ snd (collectNotes h vs)))"

definition tagFilter :: "string list \<Rightarrow> VaultNote \<Rightarrow> bool" where
  "tagFilter tags note =
     list_ex (\<lambda>tag. list_ex (\<lambda>noteTag. includesStr (toLowerCase noteTag) (toLowerCase tag))
                       (note_tags note)) tags"

definition textFilter :: "string \<Rightarrow> searchOptions \<Rightarrow> VaultNote \<Rightarrow> bool" where
  "textFilter query opts note =
     (includesStr (toLowerCase (note_title note)) (toLowerCase query) \<or>
      (opt_includeContent opts = Some True \<and>
       includesStr (toLowerCase (note_content note)) (toLowerCase query)))"

text \<open>
  \<^verbatim>\<open>sort((a, b) => b.lastModified.getTime() - a.lastModified.getTime())\<close>: a stable
  sort, the most recent first.
\<close>

definition sortByLastModified :: "VaultNote list \<Rightarrow> VaultNote list" where
  "sortByLastModified notes = sort_key (\<lambda>n. - note_lastModified n) notes"

text \<open>\<^verbatim>\<open>xs.slice(0, n)\<close>: a negative end counts from the end of the array.\<close>

definition slice0 :: "'a list \<Rightarrow> int \<Rightarrow> 'a list" where
  "slice0 xs n = (if 0 \<le> n then take (nat n) xs else take (length xs - nat (- n)) xs)"

definition searchAllVaults ::
  "MultiVaultManager \<Rightarrow> host \<Rightarrow> string \<Rightarrow> searchOptions \<Rightarrow> VaultNote list \<times> logEntry list" where
  "searchAllVaults m h query opts =
     (let collected = collectNotes h (vaultsToSearch m opts);
          allNotes = fst collected;
          byTags = (case opt_tags opts of
                      Some tags \<Rightarrow> if tags \<noteq> [] then filter (tagFilter tags) allNotes else allNotes
                    | None \<Rightarrow> allNotes);
          byText = (if query \<noteq> [] then filter (textFilter query opts) byTags else byTags);
          sortedNotes = sortByLastModified byText;
          limited = (case opt_limit opts of
                       Some n \<Rightarrow> if n \<noteq> 0 then slice0 sortedNotes n else sortedNotes
                     | None \<Rightarrow> sortedNotes)
      in (limited, snd collected))"

section \<open>Statistics and the topic index\<close>

record vaultStat =
  noteCount :: nat
  totalSize :: nat

text \<open>
  \<^verbatim>\<open>stats[vault.name] = {...}\<close> on a plain object: the name \<^verbatim>\<open>__proto__\<close> makes no
  property of its own.
\<close>

fun statVaults :: "host \<Rightarrow> VaultConfig list \<Rightarrow> (string \<rightharpoonup> vaultStat) \<Rightarrow>
    (string \<rightharpoonup> vaultStat) \<times> logEntry list" where
  "statVaults h [] acc = (acc, [])"
| "statVaults h (vault # vs) acc =
     (if \<not> validateVault h vault then statVaults h vs acc
      else (let notes = fst (readVaultNotes h vault);
                entry = \<lparr>noteCount = length notes, totalSize = sum_list (map note_size notes)\<rparr>;
                acc' = (if vault_name vault = ''__proto__'' then acc
                        else acc(vault_name vault \<mapsto> entry));
                rest = statVaults h vs acc'
            in (fst rest, snd (readVaultNotes h vault) @ snd rest)))"

definition getVaultStats ::
  "MultiVaultManager \<Rightarrow> host \<Rightarrow> (string \<rightharpoonup> vaultStat) \<times> logEntry list" where
  "getVaultStats m h = statVaults h (getAllVaults m) Map.empty"

record topicEntry =
  topic_count :: nat
  topic_vaults :: "string list"

datatype error = TypeError

text \<open>
  \<^verbatim>\<open>topicIndex\<close> is a plain object, so \<^verbatim>\<open>topicIndex[tag]\<close> also finds what
  \<^verbatim>\<open>Object.prototype\<close> holds. Under these names it finds a function or an object,
  which is truthy: no entry is made, \<^verbatim>\<open>.vaults\<close> of what was found is undefined, and
  \<^verbatim>\<open>.includes\<close> on it throws a TypeError that nothing catches.
\<close>

definition inheritedProperty :: "string \<Rightarrow> bool" where
  "inheritedProperty k =
     (k \<in> set [''constructor'', ''__defineGetter__'', ''__defineSetter__'', ''hasOwnProperty'',
               ''__lookupGetter__'', ''__lookupSetter__'', ''isPrototypeOf'',
               ''propertyIsEnumerable'', ''toString'', ''valueOf'', ''__proto__'',
               ''toLocaleString''])"

definition indexTag ::
  "string \<Rightarrow> (string \<rightharpoonup> topicEntry) \<Rightarrow> string \<Rightarrow> error + (string \<rightharpoonup> topicEntry)" where
  "indexTag vaultName topicIndex tag =
     (case topicIndex tag of
        Some e \<Rightarrow>
          Inr (topicIndex(tag \<mapsto>
                 \<lparr>topic_count = topic_count e + 1,
                  topic_vaults = (if vaultName \<in> set (topic_vaults e) then topic_vaults e
                                  else topic_vaults e @ [vaultName])\<rparr>))
      | None \<Rightarrow>
          if inheritedProperty tag then Inl TypeError
          else Inr (topicIndex(tag \<mapsto> \<lparr>topic_count = 1, topic_vaults = [vaultName]\<rparr>)))"

fun indexTags ::
  "string \<Rightarrow> (string \<rightharpoonup> topicEntry) \<Rightarrow> string list \<Rightarrow> error + (string \<rightharpoonup> topicEntry)" where
  "indexTags vaultName topicIndex [] = Inr topicIndex"
| "indexTags vaultName topicIndex (tag # tags) =
     (case indexTag vaultName topicIndex tag of
        Inl e \<Rightarrow> Inl e
      | Inr topicIndex' \<Rightarrow> indexTags vaultName topicIndex' tags)"

fun indexNotes ::
  "string \<Rightarrow> (string \<rightharpoonup> topicEntry) \<Rightarrow> VaultNote list \<Rightarrow> error + (string \<rightharpoonup> topicEntry)" where
  "indexNotes vaultName topicIndex [] = Inr topicIndex"
| "indexNotes vaultName topicIndex (note # notes) =
     (case indexTags vaultName topicIndex (note_tags note) of
        Inl e \<Rightarrow> Inl e
      | Inr topicIndex' \<Rightarrow> indexNotes vaultName topicIndex' notes)"

text \<open>
  The loop of \<^verbatim>\<open>generateCrossVaultIndex\<close> over the collections, with \<^verbatim>\<open>allNotes\<close> and
  \<^verbatim>\<open>topicIndex\<close> as they stand; what was logged before a TypeError stays logged.
\<close>

fun indexVaults ::
  "host \<Rightarrow> VaultConfig list \<Rightarrow> VaultNote list \<Rightarrow> (string \<rightharpoonup> topicEntry) \<Rightarrow>
    (error + VaultNote list \<times> (string \<rightharpoonup> topicEntry)) \<times> logEntry list" where
  "indexVaults h [] allNotes topicIndex = (Inr (allNotes, topicIndex), [])"
| "indexVaults h (vault # vs) allNotes topicIndex =
     (if \<not> validateVault h vault then indexVaults h vs allNotes topicIndex
      else (case indexNotes (vault_name vault) topicIndex (fst (readVaultNotes h vault)) of
              Inl e \<Rightarrow> (Inl e, snd (readVaultNotes h vault))
            | Inr topicIndex' \<Rightarrow>
                (let rest = indexVaults h vs (allNotes @ fst (readVaultNotes h vault)) topicIndex'
                 in (fst rest, snd (readVaultNotes h vault) @ snd rest))))"

record crossVaultIndex =
  topics :: "string \<rightharpoonup> topicEntry"
  recentNotes :: "VaultNote list"
  vaultStats :: "string \<rightharpoonup> vaultStat"

definition generateCrossVaultIndex ::
  "MultiVaultManager \<Rightarrow> host \<Rightarrow> (error + crossVaultIndex) \<times> logEntry list" where
  "generateCrossVaultIndex m h =
     (case indexVaults h (getAllVaults m) [] Map.empty of
        (Inl e, lg) \<Rightarrow> (Inl e, lg)
      | (Inr (allNotes, topicIndex), lg) \<Rightarrow>
          (let recent = take 20 (sortByLastModified allNotes);
               st = getVaultStats m h
           in (Inr \<lparr>topics = topicIndex, recentNotes = recent, vaultStats = fst st\<rparr>,
               lg @ snd st)))"

subsection \<open>Index building as a step of the process\<close>

text \<open>
  The same code with the state of the process written out. The world is what a call can
  read and what it can change: the host, the console, and the objects that all plain
  objects share. Of the latter the code can change one thing: when \<^verbatim>\<open>topicIndex[tag]\<close>
  finds a value of \<^verbatim>\<open>Object.prototype\<close>, \<^verbatim>\<open>.count++\<close> stores \<^verbatim>\<open>NaN\<close> as the property
  \<^verbatim>\<open>count\<close> of that value before \<^verbatim>\<open>.vaults.includes\<close> throws. \<open>nanCounts\<close> holds the
  names whose value has received it; under the name \<^verbatim>\<open>__proto__\<close> the value is
  \<^verbatim>\<open>Object.prototype\<close> itself, and from then on every plain object inherits
  \<^verbatim>\<open>count\<close>.
\<close>

record world =
  theHost :: host
  console :: "logEntry list"
  nanCounts :: "string set"

definition logTo :: "logEntry list \<Rightarrow> world \<Rightarrow> world" where
  "logTo es w = w\<lparr>console := console w @ es\<rparr>"

text \<open>What \<^verbatim>\<open>topicIndex[tag]\<close> finds when \<^verbatim>\<open>topicIndex\<close> has no property \<open>tag\<close> of its own.\<close>

datatype inherited = Builtin | NotANumber | Undefined

definition inheritedValue :: "world \<Rightarrow> string \<Rightarrow> inherited" where
  "inheritedValue w tag =
     (if inheritedProperty tag then Builtin
      else if tag = ''count'' \<and> ''__proto__'' \<in> nanCounts w then NotANumber
      else Undefined)"

definition stepIndexTag ::
  "string \<Rightarrow> (string \<rightharpoonup> topicEntry) \<Rightarrow> string \<Rightarrow> world \<Rightarrow>
    (error + (string \<rightharpoonup> topicEntry)) \<times> world" where
  "stepIndexTag vaultName topicIndex tag w =
     (case topicIndex tag of
        Some e \<Rightarrow>
          (Inr (topicIndex(tag \<mapsto>
                 \<lparr>topic_count = topic_count e + 1,
                  topic_vaults = (if vaultName \<in> set (topic_vaults e) then topic_vaults e
                                  else topic_vaults e @ [vaultName])\<rparr>)), w)
      | None \<Rightarrow>
          (case inheritedValue w tag of
             Builtin \<Rightarrow> (Inl TypeError, w\<lparr>nanCounts := insert tag (nanCounts w)\<rparr>)
           | NotANumber \<Rightarrow>
               (Inr (topicIndex(tag \<mapsto> \<lparr>topic_count = 1, topic_vaults = [vaultName]\<rparr>)), w)
           | Undefined \<Rightarrow>
               (Inr (topicIndex(tag \<mapsto> \<lparr>topic_count = 1, topic_vaults = [vaultName]\<rparr>)), w)))"

fun stepIndexTags ::
  "string \<Rightarrow> (string \<rightharpoonup> topicEntry) \<Rightarrow> string list \<Rightarrow> world \<Rightarrow>
    (error + (string \<rightharpoonup> topicEntry)) \<times> world" where
  "stepIndexTags vaultName topicIndex [] w = (Inr topicIndex, w)"
| "stepIndexTags vaultName topicIndex (tag # tags) w =
     (case stepIndexTag vaultName topicIndex tag w of
        (Inl e, w') \<Rightarrow> (Inl e, w')
      | (Inr topicIndex', w') \<Rightarrow> stepIndexTags vaultName topicIndex' tags w')"

fun stepIndexNotes ::
  "string \<Rightarrow> (string \<rightharpoonup> topicEntry) \<Rightarrow> VaultNote list \<Rightarrow> world \<Rightarrow>
    (error + (string \<rightharpoonup> topicEntry)) \<times> world" where
  "stepIndexNotes vaultName topicIndex [] w = (Inr topicIndex, w)"
| "stepIndexNotes vaultName topicIndex (note # notes) w =
     (case stepIndexTags vaultName topicIndex (note_tags note) w of
        (Inl e, w') \<Rightarrow> (Inl e, w')
      | (Inr topicIndex', w') \<Rightarrow> stepIndexNotes vaultName topicIndex' notes w')"

fun stepIndexVaults ::
  "VaultConfig list \<Rightarrow> VaultNote list \<Rightarrow> (string \<rightharpoonup> topicEntry) \<Rightarrow> world \<Rightarrow>
    (error + VaultNote list \<times> (string \<rightharpoonup> topicEntry)) \<times> world" where
  "stepIndexVaults [] allNotes topicIndex w = (Inr (allNotes, topicIndex), w)"
| "stepIndexVaults (vault # vs) allNotes topicIndex w =
     (if \<not> validateVault (theHost w) vault then stepIndexVaults vs allNotes topicIndex w
      else (case stepIndexNotes (vault_name vault) topicIndex
                   (fst (readVaultNotes (theHost w) vault))
                   (logTo (snd (readVaultNotes (theHost w) vault)) w) of
              (Inl e, w') \<Rightarrow> (Inl e, w')
            | (Inr topicIndex', w') \<Rightarrow>
                stepIndexVaults vs (allNotes @ fst (readVaultNotes (theHost w) vault))
                  topicIndex' w'))"

fun stepStatVaults ::
  "VaultConfig list \<Rightarrow> (string \<rightharpoonup> vaultStat) \<Rightarrow> world \<Rightarrow>
    (string \<rightharpoonup> vaultStat) \<times> world" where
  "stepStatVaults [] acc w = (acc, w)"
| "stepStatVaults (vault # vs) acc w =
     (if \<not> validateVault (theHost w) vault then stepStatVaults vs acc w
      else (let notes = fst (readVaultNotes (theHost w) vault);
                w' = logTo (snd (readVaultNotes (theHost w) vault)) w;
                entry = \<lparr>noteCount = length notes, totalSize = sum_list (map note_size notes)\<rparr>;
                acc' = (if vault_name vault = ''__proto__'' then acc
                        else acc(vault_name vault \<mapsto> entry))
            in stepStatVaults vs acc' w'))"

text \<open>One call of \<^verbatim>\<open>generateCrossVaultIndex\<close>: its outcome and the world it leaves.\<close>

definition runIndex ::
  "MultiVaultManager \<Rightarrow> world \<Rightarrow> (error + crossVaultIndex) \<times> world" where
  "runIndex m w =
     (case stepIndexVaults (getAllVaults m) [] Map.empty w of
        (Inl e, w') \<Rightarrow> (Inl e, w')
      | (Inr (allNotes, topicIndex), w') \<Rightarrow>
          (let recent = take 20 (sortByLastModified allNotes);
               st = stepStatVaults (getAllVaults m) Map.empty w'
           in (Inr \<lparr>topics = topicIndex, recentNotes = recent, vaultStats = fst st\<rparr>,
               snd st)))"

section \<open>A concrete host for worked examples\<close>

text \<open>
  The theorems about all inputs hold for every host. The worked examples below run on a
  host whose library functions are these three: \<^verbatim>\<open>JSON.parse\<close> on the JSON texts
  made of strings (with the one-letter escapes), arrays, \<^verbatim>\<open>true\<close>, \<^verbatim>\<open>false\<close> and
  \<^verbatim>\<open>null\<close>, and \<open>None\<close> (a SyntaxError) on every text that is not JSON;
  \<^verbatim>\<open>path.basename\<close> on a path that does not end in a separator (the suffix is removed
  from the last component when that component is longer than the suffix; a path that is
  the suffix itself gives the empty string); \<^verbatim>\<open>path.join\<close> of an absolute normalised
  directory other than the root \<^verbatim>\<open>/\<close> with the name of an entry, which holds no
  separator and is neither \<^verbatim>\<open>.\<close> nor \<^verbatim>\<open>..\<close>. The examples call them inside these
  domains only.
\<close>

definition isJsonSpace :: "char \<Rightarrow> bool" where
  "isJsonSpace c = (c = CHR 0x20 \<or> c = CHR 0x09 \<or> c = CHR 0x0A \<or> c = CHR 0x0D)"

definition unescape :: "char \<Rightarrow> char option" where
  "unescape c =
     (if c = CHR 0x22 \<or> c = CHR 0x5C \<or> c = CHR ''/'' then Some c
      else if c = CHR ''b'' then Some (CHR 0x08)
      else if c = CHR ''f'' then Some (CHR 0x0C)
      else if c = CHR ''n'' then Some (CHR 0x0A)
      else if c = CHR ''r'' then Some (CHR 0x0D)
      else if c = CHR ''t'' then Some (CHR 0x09)
      else None)"

text \<open>The characters of a string literal behind its opening quote, and what follows it.\<close>

fun jsonString :: "string \<Rightarrow> (string \<times> string) option" where
  "jsonString [] = None"
| "jsonString [c] = (if c = CHR 0x22 then Some ([], []) else None)"
| "jsonString (c # d # cs) =
     (if c = CHR 0x22 then Some ([], d # cs)
      else if c = CHR 0x5C
      then (case unescape d of
              None \<Rightarrow> None
            | Some e \<Rightarrow> map_option (apfst ((#) e)) (jsonString cs))
      else if (of_char c :: nat) < 32 then None
      else map_option (apfst ((#) c)) (jsonString (d # cs)))"

fun jsonValue :: "nat \<Rightarrow> string \<Rightarrow> (json \<times> string) option"
  and jsonElements :: "nat \<Rightarrow> string \<Rightarrow> (json list \<times> string) option" where
  "jsonValue 0 s = None"
| "jsonValue (Suc n) s =
     (case dropWhile isJsonSpace s of
        [] \<Rightarrow> None
      | c # cs \<Rightarrow>
          if c = CHR 0x22 then map_option (apfst JString) (jsonString cs)
          else if c = CHR ''[''
          then (case dropWhile isJsonSpace cs of
                  [] \<Rightarrow> None
                | d # ds \<Rightarrow>
                    if d = CHR '']'' then Some (JArray [], ds)
                    else map_option (apfst JArray) (jsonElements n cs))
          else if startsWith (c # cs) ''true'' then Some (JBool True, drop 4 (c # cs))
          else if startsWith (c # cs) ''false'' then Some (JBool False, drop 5 (c # cs))
          else if startsWith (c # cs) ''null'' then Some (JNull, drop 4 (c # cs))
          else None)"
| "jsonElements 0 s = None"
| "jsonElements (Suc n) s =
     (case jsonValue n s of
        None \<Rightarrow> None
      | Some (v, r) \<Rightarrow>
          (case dropWhile isJsonSpace r of
             [] \<Rightarrow> None
           | c # cs \<Rightarrow>
               if c = CHR '']'' then Some ([v], cs)
               else if c = CHR '',''
               then map_option (apfst ((#) v)) (jsonElements n cs)
               else None))"

definition parseJSON :: "string \<Rightarrow> json option" where
  "parseJSON s =
     (case jsonValue (Suc (length s)) s of
        None \<Rightarrow> None
      | Some (v, r) \<Rightarrow> if dropWhile isJsonSpace r = [] then Some v else None)"

definition notSlash :: "char \<Rightarrow> bool" where
  "notSlash c = (c \<noteq> CHR ''/'')"

definition posixBasename :: "string \<Rightarrow> string \<Rightarrow> string" where
  "posixBasename p ext =
     (let b = rev (takeWhile notSlash (rev p))
      in if p = ext then []
         else if endsWith b ext \<and> length ext < length b
         then take (length b - length ext) b else b)"

definition posixJoin :: "string \<Rightarrow> string \<Rightarrow> string" where
  "posixJoin dir entry = dir @ ''/'' @ entry"

definition libHost :: host where
  "libHost =
     \<lparr>JSON_parse = parseJSON, basename = posixBasename, join = posixJoin,
      access = (\<lambda>p. False), readdir = (\<lambda>p. Unreadable), readFile = (\<lambda>p. None),
      stat = (\<lambda>p. None)\<rparr>"

section \<open>Worked documents\<close>


text \<open>
  A front-matter document: the opening delimiter, the lines joined by line feeds, the
  closing delimiter, and what follows it. A plain line holds no line feed and does not
  start with the delimiter.
\<close>

fun joinLines :: "string list \<Rightarrow> string" where
  "joinLines [] = []"
| "joinLines [l] = l"
| "joinLines (l # l' # ls) = l @ CHR 0x0A # joinLines (l' # ls)"

definition plainLine :: "string \<Rightarrow> bool" where
  "plainLine l = (CHR 0x0A \<notin> set l \<and> \<not> startsWith l ''---'')"

definition frontmatterDoc :: "string list \<Rightarrow> string \<Rightarrow> string" where
  "frontmatterDoc ls rest = ''---\<newline>'' @ joinLines ls @ ''\<newline>---'' @ rest"

definition tagsLine :: string where
  "tagsLine = ''tags: [\"a\",\"b\"]''"

text \<open>
  The front-matter holds the tags line and a colour; the body holds neither an inline tag
  nor a wiki-link.
\<close>

definition colorDoc :: string where
  "colorDoc =
     ''---\<newline>tags: [\"a\",\"b\"]\<newline>color: \"#fff\"\<newline>---\<newline>Plain body.''"

text \<open>The tags line between two other lines.\<close>

definition titledDoc :: string where
  "titledDoc =
     ''---\<newline>title: Notes\<newline>tags: [\"a\",\"b\"]\<newline>color: blue\<newline>---\<newline>Plain body.''"

section \<open>Worked configurations and file systems\<close>

text \<open>One configured collection whose enabled variable is \<^verbatim>\<open>false\<close>.\<close>

definition disabledEnv :: "string \<rightharpoonup> string" where
  "disabledEnv =
     map_of [(''VAULT_1_NAME'', ''Work''), (''VAULT_1_PATH'', ''/work''),
             (''VAULT_1_ENABLED'', ''false'')]"

text \<open>
  Two configured collections: \<open>A\<close> holds one note with the text \<^verbatim>\<open>#work\<close>, modified
  one day before the one note of \<open>B\<close>, whose text is \<^verbatim>\<open>#personal\<close>. The path of the
  primary collection, \<^verbatim>\<open>/ghost\<close>, does not exist.
\<close>

definition scenarioEnv :: "string \<rightharpoonup> string" where
  "scenarioEnv =
     map_of [(''VAULT_1_NAME'', ''A''), (''VAULT_1_PATH'', ''/a''),
             (''VAULT_1_ENABLED'', ''true''),
             (''VAULT_2_NAME'', ''B''), (''VAULT_2_PATH'', ''/b''),
             (''VAULT_2_ENABLED'', ''true'')]"

definition scenarioHost :: host where
  "scenarioHost =
     libHost\<lparr>
       access := (\<lambda>p. p = ''/a'' \<or> p = ''/b''),
       readdir := (\<lambda>p. if p = ''/a'' then Entries [FileEntry ''work-note.md'']
                        else if p = ''/b'' then Entries [FileEntry ''personal-note.md'']
                        else Unreadable),
       readFile := map_of [(''/a/work-note.md'', ''#work''),
                           (''/b/personal-note.md'', ''#personal'')],
       stat := map_of [(''/a/work-note.md'', \<lparr>st_mtime = 1700000000000, st_size = 5\<rparr>),
                       (''/b/personal-note.md'', \<lparr>st_mtime = 1700086400000, st_size = 9\<rparr>)]\<rparr>"

definition scenarioManager :: MultiVaultManager where
  "scenarioManager = newManager scenarioEnv ''/ghost''"

definition vaultA :: VaultConfig where
  "vaultA = \<lparr>vault_name = ''A'', vault_path = ''/a'', vault_enabled = True,
             vault_type = External\<rparr>"

definition vaultB :: VaultConfig where
  "vaultB = \<lparr>vault_name = ''B'', vault_path = ''/b'', vault_enabled = True,
             vault_type = External\<rparr>"

text \<open>The scenario with a third configured collection, whose path does not exist.\<close>

definition vaultC :: VaultConfig where
  "vaultC = \<lparr>vault_name = ''C'', vault_path = ''/c'', vault_enabled = True,
             vault_type = External\<rparr>"


definition noteA :: VaultNote where
  "noteA = \<lparr>note_vault = ''A'', note_path = ''work-note.md'', note_title = ''work note'',
            note_content = ''#work'', note_tags = [''work''],
            note_frontmatter = emptyFrontmatter, note_lastModified = 1700000000000,
            note_size = 5\<rparr>"

definition noteB :: VaultNote where
  "noteB = \<lparr>note_vault = ''B'', note_path = ''personal-note.md'',
            note_title = ''personal note'', note_content = ''#personal'',
            note_tags = [''personal''], note_frontmatter = emptyFrontmatter,
            note_lastModified = 1700086400000, note_size = 9\<rparr>"

definition noOptions :: searchOptions where
  "noOptions = \<lparr>opt_includeContent = None, opt_tags = None, opt_vaults = None,
                 opt_limit = None\<rparr>"

definition scenarioTopicsA :: "string \<rightharpoonup> topicEntry" where
  "scenarioTopicsA = [''work'' \<mapsto> \<lparr>topic_count = 1, topic_vaults = [''A'']\<rparr>]"

definition scenarioTopics :: "string \<rightharpoonup> topicEntry" where
  "scenarioTopics =
     [''work'' \<mapsto> \<lparr>topic_count = 1, topic_vaults = [''A'']\<rparr>,
      ''personal'' \<mapsto> \<lparr>topic_count = 1, topic_vaults = [''B'']\<rparr>]"

definition scenarioStats :: "string \<rightharpoonup> vaultStat" where
  "scenarioStats =
     [''A'' \<mapsto> \<lparr>noteCount = 1, totalSize = 5\<rparr>, ''B'' \<mapsto> \<lparr>noteCount = 1, totalSize = 9\<rparr>]"

definition scenarioIndex :: crossVaultIndex where
  "scenarioIndex =
     \<lparr>topics = scenarioTopics, recentNotes = [noteB, noteA], vaultStats = scenarioStats\<rparr>"

section \<open>Notions used in the statements\<close>

text \<open>
  The documents of the reachable collections among \<open>vs\<close>, in the order of the
  collections.
\<close>

definition reachableNotes :: "host \<Rightarrow> VaultConfig list \<Rightarrow> VaultNote list" where
  "reachableNotes h vs =
     concat (map (\<lambda>v. fst (readVaultNotes h v)) (filter (validateVault h) vs))"

text \<open>No tag of these documents is a name that \<^verbatim>\<open>Object.prototype\<close> holds.\<close>

definition plainTags :: "VaultNote list \<Rightarrow> bool" where
  "plainTags notes =
     list_all (\<lambda>n. list_all (\<lambda>t. \<not> inheritedProperty t) (note_tags n)) notes"

text \<open>
  A file beneath a root is named by its position: the names of the directories on the way
  down from the root, then its own name. \<open>visibleMd l ns\<close> says that \<open>ns\<close> is the
  position, in the listing \<open>l\<close> of the root, of an entry that is not a directory, whose
  name ends in \<^verbatim>\<open>.md\<close>, and that lies in no directory named \<^verbatim>\<open>.obsidian\<close> or
  \<^verbatim>\<open>.git\<close> beneath the root (what lies in an unreadable directory is in no listing).
  \<open>pathOf h dir ns\<close> is the path the host joins for the position \<open>ns\<close> beneath \<open>dir\<close>.
\<close>

inductive visibleMd :: "listing \<Rightarrow> string list \<Rightarrow> bool" where
  here: "FileEntry name \<in> set es \<Longrightarrow> endsWith name ''.md'' \<Longrightarrow>
     visibleMd (Entries es) [name]"
| below: "DirEntry name sub \<in> set es \<Longrightarrow> name \<noteq> ''.obsidian'' \<Longrightarrow> name \<noteq> ''.git'' \<Longrightarrow>
     visibleMd sub ns \<Longrightarrow> visibleMd (Entries es) (name # ns)"

fun pathOf :: "host \<Rightarrow> string \<Rightarrow> string list \<Rightarrow> string" where
  "pathOf h dir [] = dir"
| "pathOf h dir (name # ns) = pathOf h (join h dir name) ns"

text \<open>A listing as a file system gives it: no directory holds two entries of one name.\<close>

fun entryName :: "dirent \<Rightarrow> string" where
  "entryName (FileEntry name) = name"
| "entryName (DirEntry name sub) = name"

fun wfListing :: "listing \<Rightarrow> bool"
  and wfEntries :: "dirent list \<Rightarrow> bool" where
  "wfListing Unreadable = True"
| "wfListing (Entries es) = (distinct (map entryName es) \<and> wfEntries es)"
| "wfEntries [] = True"
| "wfEntries (FileEntry name # es) = wfEntries es"
| "wfEntries (DirEntry name sub # es) = (wfListing sub \<and> wfEntries es)"

text \<open>The positions in the order in which the scanner visits them.\<close>

fun mdPositions :: "listing \<Rightarrow> string list list"
  and mdEntryPositions :: "dirent list \<Rightarrow> string list list" where
  "mdPositions Unreadable = []"
| "mdPositions (Entries es) = mdEntryPositions es"
| "mdEntryPositions [] = []"
| "mdEntryPositions (FileEntry name # es) =
     (if endsWith name ''.md'' then [name] # mdEntryPositions es else mdEntryPositions es)"
| "mdEntryPositions (DirEntry name sub # es) =
     (if name = ''.obsidian'' \<or> name = ''.git'' then mdEntryPositions es
      else map ((#) name) (mdPositions sub) @ mdEntryPositions es)"

text \<open>
  A collection with notes, another file, a version-control directory, a directory that
  cannot be read, and a subdirectory that holds a note and a tool directory.
\<close>

definition demoTree :: listing where
  "demoTree =
     Entries [FileEntry ''a.md'', FileEntry ''b.txt'',
       DirEntry ''.git'' (Entries [FileEntry ''x.md'']),
       DirEntry ''locked'' Unreadable,
       DirEntry ''sub''
         (Entries [FileEntry ''c.md'', DirEntry ''.obsidian'' (Entries [FileEntry ''y.md''])]),
       FileEntry ''z.md'']"

section \<open>Verification: the document parser\<close>













lemma lazyUntilClose_line:
  "CHR 0x0A \<notin> set l \<Longrightarrow> lazyUntilClose (l @ s) = map_option ((@) l) (lazyUntilClose s)"
proof (induction l)
  case Nil
  then show ?case by (simp add: option.map_ident)
next
  case (Cons c l)
  then show ?case by (auto simp: startsWith_def option.map_comp comp_def)
qed

lemma plainLine_no_delimiter:
  "plainLine l \<Longrightarrow> \<not> startsWith (l @ CHR 0x0A # y) ''---''"
proof (cases l)
  case Nil
  then show ?thesis by (simp add: startsWith_def)
next
  case l: (Cons a l1)
  show "plainLine l \<Longrightarrow> ?thesis"
  proof (cases l1)
    case Nil
    with l show "plainLine l \<Longrightarrow> ?thesis" by (simp add: startsWith_def)
  next
    case l1: (Cons b l2)
    show "plainLine l \<Longrightarrow> ?thesis"
    proof (cases l2)
      case Nil
      with l l1 show "plainLine l \<Longrightarrow> ?thesis" by (simp add: startsWith_def)
    next
      case (Cons c l3)
      with l l1 show "plainLine l \<Longrightarrow> ?thesis" by (simp add: startsWith_def plainLine_def)
    qed
  qed
qed

lemma lazyUntilClose_line_feed:
  "\<not> startsWith x ''---'' \<Longrightarrow>
   lazyUntilClose (CHR 0x0A # x) = map_option ((#) (CHR 0x0A)) (lazyUntilClose x)"
  by (cases x; cases "tl x"; cases "tl (tl x)") (auto simp: startsWith_def)

lemma lazyUntilClose_close: "lazyUntilClose (''\<newline>---'' @ rest) = Some []"
  by (simp add: startsWith_def)

lemma joinLines_shape:
  "ls \<noteq> [] \<Longrightarrow> \<exists>y. joinLines ls @ ''\<newline>---'' @ rest = hd ls @ CHR 0x0A # y"
  by (induction ls rule: joinLines.induct) auto

lemma lazyUntilClose_block:
  "list_all plainLine ls \<Longrightarrow>
   lazyUntilClose (joinLines ls @ ''\<newline>---'' @ rest) = Some (joinLines ls)"
proof (induction ls rule: joinLines.induct)
  case 1
  then show ?case using lazyUntilClose_close by simp
next
  case (2 l)
  then have "CHR 0x0A \<notin> set l"
    by (simp add: plainLine_def)
  from lazyUntilClose_line [OF this, of "''\<newline>---'' @ rest"] lazyUntilClose_close [of rest]
  show ?case by simp
next
  case (3 l l' ls)
  then have nl: "CHR 0x0A \<notin> set l"
    by (simp add: plainLine_def)
  from "3.prems" have pl: "plainLine l'" and rest: "list_all plainLine (l' # ls)"
    by simp_all
  let ?tail = "joinLines (l' # ls) @ ''\<newline>---'' @ rest"
  obtain y where y: "?tail = l' @ CHR 0x0A # y"
    using joinLines_shape [of "l' # ls" rest] by auto
  have nd: "\<not> startsWith ?tail ''---''"
    unfolding y using plainLine_no_delimiter [OF pl] .
  have "lazyUntilClose (joinLines (l # l' # ls) @ ''\<newline>---'' @ rest) =
      lazyUntilClose (l @ CHR 0x0A # ?tail)"
    by simp
  also have "\<dots> = map_option ((@) l) (lazyUntilClose (CHR 0x0A # ?tail))"
    by (rule lazyUntilClose_line [OF nl])
  also have "\<dots> = map_option ((@) l) (map_option ((#) (CHR 0x0A)) (lazyUntilClose ?tail))"
    using lazyUntilClose_line_feed [OF nd] by simp
  also have "\<dots> = Some (joinLines (l # l' # ls))"
    using "3.IH" [OF rest] by simp
  finally show ?case .
qed

lemma frontmatterDoc_match:
  "list_all plainLine ls \<Longrightarrow> frontmatterMatch (frontmatterDoc ls rest) = Some (joinLines ls)"
  using lazyUntilClose_block [of ls rest]
  by (simp add: frontmatterMatch_def frontmatterDoc_def startsWith_def)

lemma splitOn_line: "d \<notin> set l \<Longrightarrow> splitOn d l = [l]"
  by (induction l) (auto split: list.splits)

lemma splitOn_line_sep: "d \<notin> set l \<Longrightarrow> splitOn d (l @ d # s) = l # splitOn d s"
  by (induction l) (auto split: list.splits)

lemma splitOn_joinLines:
  "ls \<noteq> [] \<Longrightarrow> list_all plainLine ls \<Longrightarrow> splitOn (CHR 0x0A) (joinLines ls) = ls"
  by (induction ls rule: joinLines.induct) (auto simp: plainLine_def splitOn_line splitOn_line_sep)

lemma lineMatch_prefix:
  assumes "lineMatch l = Some (k, v)"
  shows "startsWith l (k @ '':'')"
proof -
  from assms obtain s where "dropWhile isWordChar l = CHR '':'' # s"
    and "k = takeWhile isWordChar l"
    by (auto simp: lineMatch_def Let_def split: if_splits list.splits)
  then have "l = k @ CHR '':'' # s"
    by (metis takeWhile_dropWhile_id)
  then show ?thesis
    by (simp add: startsWith_def)
qed

lemma frontmatterLines_append:
  "frontmatterLines h fm (xs @ ys) = frontmatterLines h (frontmatterLines h fm xs) ys"
  by (induction xs arbitrary: fm) (auto split: option.splits)

lemma assign_other_key:
  "k \<noteq> ''tags'' \<Longrightarrow> map_of (own (assign fm k v)) ''tags'' = map_of (own fm) ''tags''"
  by (auto simp: assign_def split: json.splits)

lemma own_tags_kept:
  "map_of (own fm) ''tags'' = Some v \<Longrightarrow> list_all (\<lambda>l. \<not> startsWith l ''tags:'') ls \<Longrightarrow>
   map_of (own (frontmatterLines h fm ls)) ''tags'' = Some v"
proof (induction ls arbitrary: fm)
  case Nil
  then show ?case by simp
next
  case (Cons l ls)
  show ?case
  proof (cases "lineMatch l")
    case None
    then show ?thesis using Cons by simp
  next
    case (Some kv)
    obtain k x where kv: "kv = (k, x)"
      by (cases kv)
    from lineMatch_prefix [of l k x] Some kv Cons.prems(2) have "k \<noteq> ''tags''"
      by auto
    then have "map_of (own (assign fm k (parseValue h x))) ''tags'' = Some v"
      using Cons.prems(1) by (simp add: assign_other_key)
    from Cons.IH [OF this] Cons.prems(2) Some kv show ?thesis
      by simp
  qed
qed

lemma tagsLine_match: "lineMatch tagsLine = Some (''tags'', ''[\"a\",\"b\"]'')"
  by code_simp

lemma tagsLine_plain: "plainLine tagsLine"
  by code_simp

lemma tagsLine_found:
  assumes jp: "JSON_parse h ''[\"a\",\"b\"]'' = Some (JArray [JString ''a'', JString ''b''])"
    and post: "list_all (\<lambda>l. \<not> startsWith l ''tags:'') post"
  shows "getTags (frontmatterLines h fm (pre @ tagsLine # post)) =
           Some (JArray [JString ''a'', JString ''b''])"
proof -
  let ?fm1 = "frontmatterLines h fm pre"
  let ?fm2 = "assign ?fm1 ''tags'' (JArray [JString ''a'', JString ''b''])"
  have a: "frontmatterLines h fm (pre @ tagsLine # post) = frontmatterLines h ?fm2 post"
    using jp by (simp add: frontmatterLines_append tagsLine_match parseValue_def)
  have "map_of (own ?fm2) ''tags'' = Some (JArray [JString ''a'', JString ''b''])"
    by (simp add: assign_def)
  from own_tags_kept [OF this post] show ?thesis
    unfolding a by (simp add: getTags_def)
qed

lemma frontmatterDoc_tags:
  assumes jp: "JSON_parse h ''[\"a\",\"b\"]'' = Some (JArray [JString ''a'', JString ''b''])"
    and lines: "list_all plainLine (pre @ post)"
    and post: "list_all (\<lambda>l. \<not> startsWith l ''tags:'') post"
    and inl: "inlineTagMatches (frontmatterDoc (pre @ tagsLine # post) rest) = []"
    and wiki: "wikiLinkMatches (frontmatterDoc (pre @ tagsLine # post) rest) = []"
  shows "extractTags (frontmatterDoc (pre @ tagsLine # post) rest)
           (extractFrontmatter h (frontmatterDoc (pre @ tagsLine # post) rest)) = [''a'', ''b'']"
proof -
  let ?ls = "pre @ tagsLine # post"
  have pl: "list_all plainLine ?ls"
    using lines tagsLine_plain by simp
  have "extractFrontmatter h (frontmatterDoc ?ls rest) = frontmatterLines h emptyFrontmatter ?ls"
    using frontmatterDoc_match [OF pl, of rest] splitOn_joinLines [OF _ pl]
    by (simp add: extractFrontmatter_def)
  then have "getTags (extractFrontmatter h (frontmatterDoc ?ls rest)) =
      Some (JArray [JString ''a'', JString ''b''])"
    using tagsLine_found [OF jp post] by simp
  then show ?thesis
    using inl wiki by (simp add: extractTags_def addTag_def)
qed

lemma inlineDoc_frontmatterMatch: "frontmatterMatch ''#a #b'' = None"
  by code_simp

lemma inlineDoc_tags_empty: "extractTags ''#a #b'' emptyFrontmatter = [''a'', ''b'']"
  by code_simp

lemma inlineDoc_tags: "extractTags ''#a #b'' (extractFrontmatter h ''#a #b'') = [''a'', ''b'']"
  by (simp add: extractFrontmatter_def inlineDoc_frontmatterMatch inlineDoc_tags_empty)

lemma parseJSON_ab:
  "parseJSON ''[\"a\",\"b\"]'' = Some (JArray [JString ''a'', JString ''b''])"
  by code_simp

lemma colorDoc_tags:
  "extractTags colorDoc (extractFrontmatter libHost colorDoc) = [''a'', ''b'', ''fff'']"
  by code_simp

text \<open>
  C5, as stated, fails. In the document
  \<^verbatim>\<open>---\ntags: ["a","b"]\ncolor: "#fff"\n---\nPlain body.\<close> the front-matter contains
  the tags line and the body holds no inline tag and no wiki-link, but the inline tag
  pattern runs over the whole content, front-matter included, and finds \<^verbatim>\<open>#fff\<close>: the
  tag set is \<open>{a, b, fff}\<close>.
\<close>

theorem C5_frontmatter_counterexample:
  "colorDoc = frontmatterDoc [tagsLine, ''color: \"#fff\"''] ''\<newline>Plain body.'' \<and>
   inlineTagMatches ''\<newline>Plain body.'' = [] \<and>
   wikiLinkMatches ''\<newline>Plain body.'' = [] \<and>
   extractTags colorDoc (extractFrontmatter libHost colorDoc) = [''a'', ''b'', ''fff''] \<and>
   \<not> set (extractTags colorDoc (extractFrontmatter libHost colorDoc)) = {''a'', ''b''}"
proof (intro conjI)
  show "colorDoc = frontmatterDoc [tagsLine, ''color: \"#fff\"''] ''\<newline>Plain body.''"
    by code_simp
  show "inlineTagMatches ''\<newline>Plain body.'' = []"
    by code_simp
  show "wikiLinkMatches ''\<newline>Plain body.'' = []"
    by code_simp
  show "extractTags colorDoc (extractFrontmatter libHost colorDoc) = [''a'', ''b'', ''fff'']"
    by (rule colorDoc_tags)
  have "''fff'' \<notin> {''a'', ''b''}"
    by simp
  moreover have "''fff'' \<in> set (extractTags colorDoc (extractFrontmatter libHost colorDoc))"
    by (simp add: colorDoc_tags)
  ultimately show "\<not> set (extractTags colorDoc (extractFrontmatter libHost colorDoc)) =
      {''a'', ''b''}"
    by metis
qed

text \<open>
  C5, amended: on every host whose \<^verbatim>\<open>JSON.parse\<close> reads \<^verbatim>\<open>["a","b"]\<close> as the array of
  the strings \<open>a\<close> and \<open>b\<close>, a document whose front-matter holds the line
  \<^verbatim>\<open>tags: ["a","b"]\<close> among any plain lines before and after it, none of the later ones
  starting with \<^verbatim>\<open>tags:\<close>, and in whose whole content, front-matter included, neither
  the inline tag pattern nor the wiki-link pattern finds a match, has the tag set
  \<open>{a, b}\<close>; and the document \<^verbatim>\<open>#a #b\<close>, which has no front-matter, has the same tag
  set.
\<close>

theorem C5_tag_roundtrip:
  assumes "JSON_parse h ''[\"a\",\"b\"]'' = Some (JArray [JString ''a'', JString ''b''])"
    and "list_all plainLine (pre @ post)"
    and "list_all (\<lambda>l. \<not> startsWith l ''tags:'') post"
    and "inlineTagMatches (frontmatterDoc (pre @ tagsLine # post) rest) = []"
    and "wikiLinkMatches (frontmatterDoc (pre @ tagsLine # post) rest) = []"
  shows "set (extractTags (frontmatterDoc (pre @ tagsLine # post) rest)
              (extractFrontmatter h (frontmatterDoc (pre @ tagsLine # post) rest))) =
           {''a'', ''b''} \<and>
         frontmatterMatch ''#a #b'' = None \<and>
         set (extractTags ''#a #b'' (extractFrontmatter h ''#a #b'')) = {''a'', ''b''}"
  by (simp add: frontmatterDoc_tags [OF assms] inlineDoc_tags inlineDoc_frontmatterMatch)

theorem C5_tag_roundtrip_witness:
  "JSON_parse libHost ''[\"a\",\"b\"]'' = Some (JArray [JString ''a'', JString ''b'']) \<and>
   list_all plainLine ([''title: Notes''] @ [''color: blue'']) \<and>
   frontmatterDoc ([''title: Notes''] @ tagsLine # [''color: blue'']) ''\<newline>Plain body.'' =
     titledDoc \<and>
   inlineTagMatches titledDoc = [] \<and> wikiLinkMatches titledDoc = [] \<and>
   set (extractTags titledDoc (extractFrontmatter libHost titledDoc)) = {''a'', ''b''} \<and>
   set (extractTags ''#a #b'' (extractFrontmatter libHost ''#a #b'')) = {''a'', ''b''}"
proof -
  have jp: "JSON_parse libHost ''[\"a\",\"b\"]'' = Some (JArray [JString ''a'', JString ''b''])"
    by (simp add: libHost_def parseJSON_ab)
  have d: "frontmatterDoc ([''title: Notes''] @ tagsLine # [''color: blue''])
      ''\<newline>Plain body.'' = titledDoc"
    by code_simp
  have l: "list_all plainLine ([''title: Notes''] @ [''color: blue''])"
    by code_simp
  have p: "list_all (\<lambda>l. \<not> startsWith l ''tags:'') [''color: blue'']"
    by code_simp
  have i: "inlineTagMatches titledDoc = []"
    by code_simp
  have w: "wikiLinkMatches titledDoc = []"
    by code_simp
  have t: "set (extractTags titledDoc (extractFrontmatter libHost titledDoc)) = {''a'', ''b''} \<and>
      frontmatterMatch ''#a #b'' = None \<and>
      set (extractTags ''#a #b'' (extractFrontmatter libHost ''#a #b'')) = {''a'', ''b''}"
    by (rule C5_tag_roundtrip [of libHost "[''title: Notes'']" "[''color: blue'']"
          "''\<newline>Plain body.''", unfolded d, OF jp l p i w])
  show ?thesis
    by (intro conjI jp l d i w conjunct1 [OF t] conjunct2 [OF conjunct2 [OF t]])
qed

text \<open>
  C8 fails on the code. In \<^verbatim>\<open>/^#\s+(.+)$/m\<close> the white space after the marker may be
  a line break, so on the two lines \<^verbatim>\<open>#\<close> and \<^verbatim>\<open># Hello\<close> the match starts at the bare
  marker of the first line and the title is the whole second line, \<^verbatim>\<open># Hello\<close>, not the
  heading text \<open>Hello\<close>; and on the lines \<^verbatim>\<open>#\<close> and \<^verbatim>\<open>foo\<close>, which hold no level-1
  heading, the title is \<open>foo\<close>, not the file name \<open>my note\<close>. A document without any
  line that starts with the marker does get the title from the file name.
\<close>

theorem C8_title_through_line_break:
  "splitOn (CHR 0x0A) ''#\<newline># Hello'' = [''#'', ''# Hello''] \<and>
   extractTitle h ''#\<newline># Hello'' p = ''# Hello'' \<and>
   extractTitle h ''#\<newline>foo'' ''my-note.md'' = ''foo'' \<and>
   extractTitle libHost ''foo'' ''dir/my-note_x.md'' = ''my note x''"
proof -
  have "extractTitle h ''#\<newline># Hello'' p = ''# Hello''"
    by (simp add: extractTitle_def h1Match_def h1After_def isWhiteSpace_def
        isLineTerminator_def notLineTerminator_def trim_def)
  moreover have "extractTitle h ''#\<newline>foo'' ''my-note.md'' = ''foo''"
    by (simp add: extractTitle_def h1Match_def h1After_def isWhiteSpace_def
        isLineTerminator_def notLineTerminator_def trim_def)
  moreover have "extractTitle libHost ''foo'' ''dir/my-note_x.md'' = ''my note x''"
    by code_simp
  ultimately show ?thesis
    by simp
qed

section \<open>Verification: the registry\<close>

lemma loadVault_iff:
  "v \<in> set (loadVault env i) \<longleftrightarrow>
     (env (vaultKey i ''NAME'') = Some (vault_name v) \<and>
      env (vaultKey i ''PATH'') = Some (vault_path v) \<and>
      vault_name v \<noteq> [] \<and> vault_path v \<noteq> [] \<and>
      env (vaultKey i ''ENABLED'') = Some ''true'' \<and>
      vault_enabled v \<and> vault_type v = External)"
  by (cases v) (auto simp: loadVault_def split: option.splits)

lemma loadExternalVaults_enabled:
  "filter vault_enabled (loadExternalVaults env) = loadExternalVaults env"
proof -
  have "\<forall>v\<in>set (loadVault env i). vault_enabled v" for i
    by (simp add: loadVault_iff)
  then show ?thesis
    unfolding loadExternalVaults_def by (auto simp: filter_id_conv)
qed

text \<open>
  C2, as stated, fails: a collection that is configured with the enabled variable
  \<^verbatim>\<open>false\<close> is not in the full list. With \<^verbatim>\<open>VAULT_1_NAME=Work\<close>,
  \<^verbatim>\<open>VAULT_1_PATH=/work\<close>, \<^verbatim>\<open>VAULT_1_ENABLED=false\<close> the full list holds the primary
  collection alone.
\<close>

theorem C2_disabled_counterexample:
  "disabledEnv ''VAULT_1_NAME'' = Some ''Work'' \<and>
   disabledEnv ''VAULT_1_ENABLED'' = Some ''false'' \<and>
   ''Work'' \<notin> set (map vault_name (getAllVaults (newManager disabledEnv ''/ghost''))) \<and>
   getAllVaults (newManager disabledEnv ''/ghost'') =
     [\<lparr>vault_name = ''Ghost AI Vault'', vault_path = ''/ghost'', vault_enabled = True,
       vault_type = Ghost\<rparr>]"
proof -
  have "getAllVaults (newManager disabledEnv ''/ghost'') =
     [\<lparr>vault_name = ''Ghost AI Vault'', vault_path = ''/ghost'', vault_enabled = True,
       vault_type = Ghost\<rparr>]"
    by code_simp
  then show ?thesis
    by (simp add: disabledEnv_def)
qed

text \<open>
  C2, amended: the full list is the always-present primary collection followed by the
  loaded external collections, and an external collection is loaded exactly when, for
  some index from 1 to 10, its name and its path are the values of the name and path
  variables, neither is empty, and the enabled variable is the text \<^verbatim>\<open>true\<close>; every
  loaded collection carries the enabled flag, so the enabled-only view is the whole
  list of external collections, and a collection configured as disabled is in neither.
\<close>

theorem C2_registry_amended:
  "getAllVaults (newManager env p) =
     \<lparr>vault_name = ''Ghost AI Vault'', vault_path = p, vault_enabled = True,
      vault_type = Ghost\<rparr> # externalVaults (newManager env p) \<and>
   getExternalVaults (newManager env p) = externalVaults (newManager env p) \<and>
   (v \<in> set (externalVaults (newManager env p)) \<longleftrightarrow>
      (\<exists>i\<in>{1..10}. env (vaultKey i ''NAME'') = Some (vault_name v) \<and>
         env (vaultKey i ''PATH'') = Some (vault_path v) \<and>
         vault_name v \<noteq> [] \<and> vault_path v \<noteq> [] \<and>
         env (vaultKey i ''ENABLED'') = Some ''true'' \<and>
         vault_enabled v \<and> vault_type v = External))"
proof -
  have range: "{1..10::nat} = set [1..<11]"
    by auto
  show ?thesis
    using loadExternalVaults_enabled [of env] unfolding range
    by (auto simp: getAllVaults_def newManager_def ghostVault_def getExternalVaults_def
        loadExternalVaults_def loadVault_iff simp del: upt_Suc upt_rec_numeral)
qed

section \<open>Verification: the search options\<close>

lemma scenarioManager_eq:
  "scenarioManager = \<lparr>ghostVaultPath = ''/ghost'', externalVaults = [vaultA, vaultB]\<rparr>"
  by code_simp

lemma scenario_search:
  "searchAllVaults scenarioManager scenarioHost [] noOptions =
     ([noteB, noteA], [WarnNotAccessible ''Ghost AI Vault''])"
  by code_simp

lemma scenario_search_empty_filter:
  "searchAllVaults scenarioManager scenarioHost [] (noOptions\<lparr>opt_vaults := Some []\<rparr>) =
     ([], [])"
  by code_simp

lemma scenario_search_zero_limit:
  "searchAllVaults scenarioManager scenarioHost [] (noOptions\<lparr>opt_limit := Some 0\<rparr>) =
     ([noteB, noteA], [WarnNotAccessible ''Ghost AI Vault''])"
  by code_simp

lemma scenario_search_limit_one:
  "searchAllVaults scenarioManager scenarioHost [] (noOptions\<lparr>opt_limit := Some 1\<rparr>) =
     ([noteB], [WarnNotAccessible ''Ghost AI Vault''])"
  by code_simp

lemma textFilter_limit: "textFilter q (opts\<lparr>opt_limit := l\<rparr>) = textFilter q opts"
  by (rule ext) (simp add: textFilter_def)

text \<open>
  C3 fails on the code for a collection filter that is supplied as the empty array. The
  guard is \<^verbatim>\<open>options.vaults ? ... : ...\<close> and an empty array is truthy, so no
  collection is a candidate and the search returns nothing, where the claim asks for all
  registered collections; the tag filter of the same function does test the length. In
  the two-collection scenario the search without a filter returns both notes, the search
  with the empty filter none.
\<close>

theorem C3_empty_filter_searches_nothing:
  "vaultsToSearch m (opts\<lparr>opt_vaults := Some []\<rparr>) = [] \<and>
   searchAllVaults m h q (opts\<lparr>opt_vaults := Some []\<rparr>) = ([], []) \<and>
   fst (searchAllVaults scenarioManager scenarioHost [] noOptions) = [noteB, noteA] \<and>
   fst (searchAllVaults scenarioManager scenarioHost []
          (noOptions\<lparr>opt_vaults := Some []\<rparr>)) = []"
proof -
  have "searchAllVaults m h q (opts\<lparr>opt_vaults := Some []\<rparr>) = ([], [])"
    by (simp add: searchAllVaults_def vaultsToSearch_def sortByLastModified_def slice0_def
        Let_def split: option.splits)
  then show ?thesis
    by (simp add: vaultsToSearch_def scenario_search scenario_search_empty_filter)
qed

text \<open>
  C10: a limit supplied as the integer 0 is falsy, so the result is the one of the same
  search without a limit: all surviving documents, sorted, and not the empty sequence
  that \<^verbatim>\<open>slice(0, 0)\<close> would give. In the two-collection scenario the search with limit
  0 returns both notes, the search with limit 1 only the more recent one.
\<close>

theorem C10_zero_limit_is_no_limit:
  "searchAllVaults m h q (opts\<lparr>opt_limit := Some 0\<rparr>) =
     searchAllVaults m h q (opts\<lparr>opt_limit := None\<rparr>) \<and>
   fst (searchAllVaults scenarioManager scenarioHost []
          (noOptions\<lparr>opt_limit := Some 0\<rparr>)) = [noteB, noteA] \<and>
   fst (searchAllVaults scenarioManager scenarioHost []
          (noOptions\<lparr>opt_limit := Some 1\<rparr>)) = [noteB]"
proof -
  have "searchAllVaults m h q (opts\<lparr>opt_limit := Some 0\<rparr>) =
     searchAllVaults m h q (opts\<lparr>opt_limit := None\<rparr>)"
    by (simp add: searchAllVaults_def vaultsToSearch_def Let_def textFilter_limit)
  then show ?thesis
    by (simp add: scenario_search_zero_limit scenario_search_limit_one)
qed

section \<open>Verification: unreachable collections, the index and its recency list\<close>

lemma reachableNotes_simps [simp]:
  "reachableNotes h [] = []"
  "reachableNotes h (v # vs) =
     (if validateVault h v then fst (readVaultNotes h v) @ reachableNotes h vs
      else reachableNotes h vs)"
  by (simp_all add: reachableNotes_def)







lemma set_sortByLastModified [simp]: "set (sortByLastModified ns) = set ns"
  by (simp add: sortByLastModified_def)









lemma indexVaults_notes:
  "fst (indexVaults h vs ns ti) = Inr (ns', ti') \<Longrightarrow> ns' = ns @ reachableNotes h vs"
  by (induction vs arbitrary: ns ti) (fastforce simp: Let_def split: if_splits sum.splits)+

lemma indexTag_returns: "\<not> inheritedProperty t \<Longrightarrow> \<exists>ti'. indexTag n ti t = Inr ti'"
  by (auto simp: indexTag_def split: option.splits)

lemma indexTags_returns:
  "list_all (\<lambda>t. \<not> inheritedProperty t) ts \<Longrightarrow> \<exists>ti'. indexTags n ti ts = Inr ti'"
proof (induction ts arbitrary: ti)
  case Nil
  then show ?case by simp
next
  case (Cons t ts)
  then obtain ti1 where "indexTag n ti t = Inr ti1"
    using indexTag_returns [of t n ti] by auto
  then show ?case
    using Cons by auto
qed

lemma indexNotes_returns: "plainTags ns \<Longrightarrow> \<exists>ti'. indexNotes n ti ns = Inr ti'"
proof (induction ns arbitrary: ti)
  case Nil
  then show ?case by simp
next
  case (Cons a ns)
  then obtain ti1 where "indexTags n ti (note_tags a) = Inr ti1"
    using indexTags_returns [of "note_tags a" n ti] by (auto simp: plainTags_def)
  then show ?case
    using Cons by (auto simp: plainTags_def)
qed

lemma indexVaults_returns:
  "plainTags (reachableNotes h vs) \<Longrightarrow> \<exists>r. fst (indexVaults h vs ns ti) = Inr r"
proof (induction vs arbitrary: ns ti)
  case Nil
  then show ?case by simp
next
  case (Cons v vs)
  show ?case
  proof (cases "validateVault h v")
    case False
    then show ?thesis
      using Cons by simp
  next
    case True
    with Cons.prems have p1: "plainTags (fst (readVaultNotes h v))"
      and p2: "plainTags (reachableNotes h vs)"
      by (auto simp: plainTags_def)
    from indexNotes_returns [OF p1] obtain ti1
      where a: "indexNotes (vault_name v) ti (fst (readVaultNotes h v)) = Inr ti1"
      by blast
    from Cons.IH [OF p2] obtain r
      where "fst (indexVaults h vs (ns @ fst (readVaultNotes h v)) ti1) = Inr r"
      by blast
    then show ?thesis
      using True a by (simp add: Let_def)
  qed
qed

lemma index_cases:
  assumes "fst (generateCrossVaultIndex m h) = Inr idx"
  obtains allNotes where
    "fst (indexVaults h (getAllVaults m) [] Map.empty) = Inr (allNotes, topics idx)"
    "recentNotes idx = take 20 (sortByLastModified allNotes)"
    "vaultStats idx = fst (getVaultStats m h)"
  using assms
  by (auto simp: generateCrossVaultIndex_def Let_def split: prod.splits sum.splits)

lemma index_returns:
  assumes "plainTags (reachableNotes h (getAllVaults m))"
  shows "\<exists>idx. fst (generateCrossVaultIndex m h) = Inr idx"
proof -
  from indexVaults_returns [OF assms] obtain r
    where "fst (indexVaults h (getAllVaults m) [] Map.empty) = Inr r"
    by blast
  then show ?thesis
    by (cases "indexVaults h (getAllVaults m) [] Map.empty"; cases r)
      (simp add: generateCrossVaultIndex_def Let_def)
qed

lemma index_recent:
  assumes "fst (generateCrossVaultIndex m h) = Inr idx"
  shows "recentNotes idx = take 20 (sortByLastModified (reachableNotes h (getAllVaults m)))"
proof -
  from assms obtain allNotes where
    a: "fst (indexVaults h (getAllVaults m) [] Map.empty) = Inr (allNotes, topics idx)" and
    b: "recentNotes idx = take 20 (sortByLastModified allNotes)"
    by (rule index_cases)
  from indexVaults_notes [OF a] b show ?thesis
    by simp
qed

subsection \<open>The step of the process against the function of the host\<close>

lemma stepIndexTag_pure:
  "fst (stepIndexTag n ti t w) = indexTag n ti t"
  "theHost (snd (stepIndexTag n ti t w)) = theHost w"
  by (auto simp: stepIndexTag_def indexTag_def inheritedValue_def split: option.splits)

lemma stepIndexTags_pure:
  "fst (stepIndexTags n ti ts w) = indexTags n ti ts \<and>
   theHost (snd (stepIndexTags n ti ts w)) = theHost w"
proof (induction ts arbitrary: ti w)
  case Nil
  then show ?case by simp
next
  case (Cons t ts)
  obtain r w1 where s: "stepIndexTag n ti t w = (r, w1)"
    by (cases "stepIndexTag n ti t w")
  with stepIndexTag_pure [of n ti t w] have r: "indexTag n ti t = r" and h: "theHost w1 = theHost w"
    by auto
  show ?case
    using s r h Cons.IH by (cases r) auto
qed

lemma stepIndexNotes_pure:
  "fst (stepIndexNotes n ti ns w) = indexNotes n ti ns \<and>
   theHost (snd (stepIndexNotes n ti ns w)) = theHost w"
proof (induction ns arbitrary: ti w)
  case Nil
  then show ?case by simp
next
  case (Cons a ns)
  obtain r w1 where s: "stepIndexTags n ti (note_tags a) w = (r, w1)"
    by (cases "stepIndexTags n ti (note_tags a) w")
  with stepIndexTags_pure [of n ti "note_tags a" w]
  have r: "indexTags n ti (note_tags a) = r" and h: "theHost w1 = theHost w"
    by auto
  show ?case
    using s r h Cons.IH by (cases r) auto
qed

lemma stepIndexVaults_pure:
  "fst (stepIndexVaults vs ns ti w) = fst (indexVaults (theHost w) vs ns ti) \<and>
   theHost (snd (stepIndexVaults vs ns ti w)) = theHost w"
proof (induction vs arbitrary: ns ti w)
  case Nil
  then show ?case by simp
next
  case (Cons v vs)
  show ?case
  proof (cases "validateVault (theHost w) v")
    case False
    then show ?thesis
      using Cons.IH by simp
  next
    case True
    let ?w = "logTo (snd (readVaultNotes (theHost w) v)) w"
    let ?ns = "fst (readVaultNotes (theHost w) v)"
    obtain r w1 where s: "stepIndexNotes (vault_name v) ti ?ns ?w = (r, w1)"
      by (cases "stepIndexNotes (vault_name v) ti ?ns ?w")
    with stepIndexNotes_pure [of "vault_name v" ti ?ns ?w]
    have r: "indexNotes (vault_name v) ti ?ns = r" and h: "theHost w1 = theHost w"
      by (auto simp: logTo_def)
    show ?thesis
      using True s r h Cons.IH [of "ns @ ?ns" _ w1] by (cases r) (auto simp: Let_def)
  qed
qed

lemma stepStatVaults_pure:
  "fst (stepStatVaults vs acc w) = fst (statVaults (theHost w) vs acc) \<and>
   theHost (snd (stepStatVaults vs acc w)) = theHost w"
proof (induction vs arbitrary: acc w)
  case Nil
  then show ?case by simp
next
  case (Cons v vs)
  show ?case
  proof (cases "validateVault (theHost w) v")
    case False
    then show ?thesis
      using Cons.IH by simp
  next
    case True
    have h: "theHost (logTo (snd (readVaultNotes (theHost w) v)) w) = theHost w"
      by (simp add: logTo_def)
    show ?thesis
      using True Cons.IH [of _ "logTo (snd (readVaultNotes (theHost w) v)) w"]
      by (simp add: Let_def h)
  qed
qed

lemma runIndex_pure:
  "fst (runIndex m w) = fst (generateCrossVaultIndex m (theHost w)) \<and>
   theHost (snd (runIndex m w)) = theHost w"
proof -
  obtain r w1 where s: "stepIndexVaults (getAllVaults m) [] Map.empty w = (r, w1)"
    by (cases "stepIndexVaults (getAllVaults m) [] Map.empty w")
  with stepIndexVaults_pure [of "getAllVaults m" "[]" Map.empty w]
  have r: "fst (indexVaults (theHost w) (getAllVaults m) [] Map.empty) = r"
    and h: "theHost w1 = theHost w"
    by auto
  obtain r2 lg where i: "indexVaults (theHost w) (getAllVaults m) [] Map.empty = (r2, lg)"
    by (cases "indexVaults (theHost w) (getAllVaults m) [] Map.empty")
  with r have rr: "r2 = r"
    by simp
  show ?thesis
  proof (cases r)
    case (Inl e)
    then show ?thesis
      using s i rr h by (simp add: runIndex_def generateCrossVaultIndex_def)
  next
    case (Inr p)
    obtain an ti where p: "p = (an, ti)"
      by (cases p)
    show ?thesis
      using Inr p s i rr h stepStatVaults_pure [of "getAllVaults m" Map.empty w1]
      by (simp add: runIndex_def generateCrossVaultIndex_def Let_def getVaultStats_def)
  qed
qed

subsection \<open>The two-collection scenario, evaluated\<close>

lemma scenario_validate:
  "validateVault scenarioHost (ghostVault scenarioManager) = False"
  "validateVault scenarioHost vaultA = True"
  "validateVault scenarioHost vaultB = True"
  "validateVault scenarioHost vaultC = False"
  by code_simp+

lemma scenario_names: "vault_name vaultA = ''A''" "vault_name vaultB = ''B''"
  by (simp_all add: vaultA_def vaultB_def)

lemma scenario_readA: "readVaultNotes scenarioHost vaultA = ([noteA], [])"
  by code_simp

lemma scenario_readB: "readVaultNotes scenarioHost vaultB = ([noteB], [])"
  by code_simp

lemma scenario_indexA: "indexNotes ''A'' Map.empty [noteA] = Inr scenarioTopicsA"
  by (simp add: noteA_def indexTag_def inheritedProperty_def scenarioTopicsA_def)

lemma scenario_indexB: "indexNotes ''B'' scenarioTopicsA [noteB] = Inr scenarioTopics"
  by (simp add: noteB_def indexTag_def inheritedProperty_def scenarioTopics_def
      scenarioTopicsA_def)

lemma scenario_vaults:
  "getAllVaults scenarioManager = [ghostVault scenarioManager, vaultA, vaultB]"
  by (simp add: getAllVaults_def scenarioManager_eq)



lemma scenario_indexVaults:
  "indexVaults scenarioHost (getAllVaults scenarioManager) [] Map.empty =
     (Inr ([noteA, noteB], scenarioTopics), [])"
  by (simp add: scenario_vaults scenario_validate scenario_names scenario_readA
      scenario_readB scenario_indexA scenario_indexB del: indexNotes.simps)

lemma scenario_sorted: "sortByLastModified [noteA, noteB] = [noteB, noteA]"
  by code_simp

lemma scenario_stats: "getVaultStats scenarioManager scenarioHost = (scenarioStats, [])"
  by (simp add: getVaultStats_def scenario_vaults scenario_validate scenario_readA
      scenario_readB Let_def scenario_names noteA_def noteB_def scenarioStats_def)

lemma scenario_index:
  "generateCrossVaultIndex scenarioManager scenarioHost = (Inr scenarioIndex, [])"
  by (simp add: generateCrossVaultIndex_def scenario_indexVaults scenario_sorted
      scenario_stats scenarioIndex_def)

lemma scenario_reachable:
  "reachableNotes scenarioHost (getAllVaults scenarioManager) = [noteA, noteB]"
  by (simp add: scenario_vaults scenario_validate scenario_readA scenario_readB)

lemma scenario_plainTags:
  "plainTags (reachableNotes scenarioHost (getAllVaults scenarioManager))"
  by (simp add: scenario_reachable plainTags_def noteA_def noteB_def inheritedProperty_def)

subsection \<open>Claims\<close>




text \<open>
  C6: two calls of index building in succession, the second in the world that the first
  left (its console lines written, and \<^verbatim>\<open>count\<close> stored wherever a tag met a value of
  \<^verbatim>\<open>Object.prototype\<close>). A call leaves the host as it was, and what it stores does not
  change what any later lookup finds to be truthy; so the second call has the outcome of
  the first: the same topics with the same counts and collections, the same recency list
  in the same order, the same statistics (or the same TypeError). The world does change:
  the tag \<^verbatim>\<open>__proto__\<close> stores \<^verbatim>\<open>count\<close> on \<^verbatim>\<open>Object.prototype\<close>, and the tag
  \<^verbatim>\<open>count\<close> is indexed after that as before. In the two-collection scenario both calls
  return the index of the scenario.
\<close>

theorem C6_index_twice:
  "theHost (snd (runIndex m w)) = theHost w \<and>
   fst (runIndex m (snd (runIndex m w))) = fst (runIndex m w) \<and>
   nanCounts (snd (stepIndexTag n Map.empty ''__proto__'' w)) =
     insert ''__proto__'' (nanCounts w) \<and>
   fst (stepIndexTag n Map.empty ''count'' (w\<lparr>nanCounts := {''__proto__''}\<rparr>)) =
     fst (stepIndexTag n Map.empty ''count'' w) \<and>
   fst (runIndex scenarioManager \<lparr>theHost = scenarioHost, console = [], nanCounts = {}\<rparr>) =
     Inr scenarioIndex \<and>
   fst (runIndex scenarioManager
         (snd (runIndex scenarioManager
                 \<lparr>theHost = scenarioHost, console = [], nanCounts = {}\<rparr>))) =
     Inr scenarioIndex"
proof -
  have twice: "fst (runIndex m (snd (runIndex m w))) = fst (runIndex m w)" for m w
    using runIndex_pure [of m w] runIndex_pure [of m "snd (runIndex m w)"] by simp
  have first: "fst (runIndex scenarioManager
      \<lparr>theHost = scenarioHost, console = [], nanCounts = {}\<rparr>) = Inr scenarioIndex"
    using runIndex_pure [of scenarioManager "\<lparr>theHost = scenarioHost, console = [], nanCounts = {}\<rparr>"]
    by (simp add: scenario_index)
  have stored: "nanCounts (snd (stepIndexTag n Map.empty ''__proto__'' w)) =
      insert ''__proto__'' (nanCounts w)"
    by (simp add: stepIndexTag_def inheritedValue_def inheritedProperty_def)
  have after: "fst (stepIndexTag n Map.empty ''count'' (w\<lparr>nanCounts := {''__proto__''}\<rparr>)) =
      fst (stepIndexTag n Map.empty ''count'' w)"
    by (simp add: stepIndexTag_pure(1))
  show ?thesis
    using runIndex_pure [of m w] twice first stored after by simp
qed

text \<open>
  C7: whenever index building returns an index, its recency list is the first 20
  entries of a rearrangement of all scanned documents (the documents of the reachable
  collections) in which the modification times never increase, so it has at most 20
  entries; and it returns an index whenever no scanned document carries a tag that
  \<^verbatim>\<open>Object.prototype\<close> holds. In the scenario (collection \<open>A\<close> with one note tagged
  \<^verbatim>\<open>#work\<close>, collection \<open>B\<close> with one note tagged \<^verbatim>\<open>#personal\<close> modified a day later)
  the recency list is the note of \<open>B\<close>, then the note of \<open>A\<close>, and the topics are \<open>work\<close>
  with count 1 from \<open>A\<close> and \<open>personal\<close> with count 1 from \<open>B\<close>, and no other.
\<close>

theorem C7_recent_documents:
  "(fst (generateCrossVaultIndex m h) = Inr idx \<longrightarrow>
      (\<exists>ys. mset ys = mset (reachableNotes h (getAllVaults m)) \<and>
            sorted_wrt (\<lambda>a b. note_lastModified b \<le> note_lastModified a) ys \<and>
            recentNotes idx = take 20 ys) \<and>
      length (recentNotes idx) \<le> 20) \<and>
   (plainTags (reachableNotes h (getAllVaults m)) \<longrightarrow>
      (\<exists>idx'. fst (generateCrossVaultIndex m h) = Inr idx')) \<and>
   reachableNotes scenarioHost (getAllVaults scenarioManager) = [noteA, noteB] \<and>
   note_lastModified noteA < note_lastModified noteB \<and>
   fst (generateCrossVaultIndex scenarioManager scenarioHost) = Inr scenarioIndex \<and>
   recentNotes scenarioIndex = [noteB, noteA] \<and>
   topics scenarioIndex ''work'' = Some \<lparr>topic_count = 1, topic_vaults = [''A'']\<rparr> \<and>
   topics scenarioIndex ''personal'' = Some \<lparr>topic_count = 1, topic_vaults = [''B'']\<rparr> \<and>
   dom (topics scenarioIndex) = {''work'', ''personal''}"
proof -
  have general: "(\<exists>ys. mset ys = mset (reachableNotes h (getAllVaults m)) \<and>
            sorted_wrt (\<lambda>a b. note_lastModified b \<le> note_lastModified a) ys \<and>
            recentNotes idx = take 20 ys) \<and>
      length (recentNotes idx) \<le> 20"
    if r: "fst (generateCrossVaultIndex m h) = Inr idx"
  proof -
    let ?ns = "reachableNotes h (getAllVaults m)"
    have "sorted (map (\<lambda>n. - note_lastModified n) (sortByLastModified ?ns))"
      by (simp add: sortByLastModified_def)
    then have s: "sorted_wrt (\<lambda>a b. note_lastModified b \<le> note_lastModified a)
        (sortByLastModified ?ns)"
      by (simp add: sorted_map)
    have p: "mset (sortByLastModified ?ns) = mset ?ns"
      by (simp add: sortByLastModified_def)
    from index_recent [OF r] s p show ?thesis
      by auto
  qed
  have scenario: "note_lastModified noteA < note_lastModified noteB"
    "topics scenarioIndex ''work'' = Some \<lparr>topic_count = 1, topic_vaults = [''A'']\<rparr>"
    "topics scenarioIndex ''personal'' = Some \<lparr>topic_count = 1, topic_vaults = [''B'']\<rparr>"
    "dom (topics scenarioIndex) = {''work'', ''personal''}"
    by (auto simp: noteA_def noteB_def scenarioIndex_def scenarioTopics_def)
  show ?thesis
    using general index_returns scenario
    by (simp add: scenario_reachable scenario_index scenarioIndex_def)
qed

theorem C7_recent_documents_witness:
  "fst (generateCrossVaultIndex scenarioManager scenarioHost) = Inr scenarioIndex \<and>
   plainTags (reachableNotes scenarioHost (getAllVaults scenarioManager)) \<and>
   (\<exists>ys. mset ys = mset [noteA, noteB] \<and>
         sorted_wrt (\<lambda>a b. note_lastModified b \<le> note_lastModified a) ys \<and>
         recentNotes scenarioIndex = take 20 ys) \<and>
   length (recentNotes scenarioIndex) \<le> 20"
proof -
  have r: "fst (generateCrossVaultIndex scenarioManager scenarioHost) = Inr scenarioIndex"
    by (simp add: scenario_index)
  note t = C7_recent_documents [of scenarioManager scenarioHost scenarioIndex,
      unfolded scenario_reachable]
  show ?thesis
    using t r scenario_plainTags by blast
qed

section \<open>Verification: the scanner\<close>

lemma files_positions:
  "fst (getMarkdownFiles h dir l) = map (pathOf h dir) (mdPositions l)"
  "fst (scanEntries h dir es) = map (pathOf h dir) (mdEntryPositions es)"
  by (induction h dir l and h dir es rule: getMarkdownFiles_scanEntries.induct) auto

lemma entry_positions_iff:
  "ns \<in> set (mdEntryPositions es) \<longleftrightarrow>
     (\<exists>name. ns = [name] \<and> FileEntry name \<in> set es \<and> endsWith name ''.md'') \<or>
     (\<exists>name sub ms. ns = name # ms \<and> DirEntry name sub \<in> set es \<and>
        name \<noteq> ''.obsidian'' \<and> name \<noteq> ''.git'' \<and> ms \<in> set (mdPositions sub))"
proof (induction es)
  case Nil
  then show ?case by simp
next
  case (Cons e es)
  show ?case
  proof (cases e)
    case (FileEntry n)
    then show ?thesis using Cons.IH by auto
  next
    case (DirEntry n sub)
    then show ?thesis using Cons.IH by auto
  qed
qed

lemma positions_sound:
  "ns \<in> set (mdPositions l) \<Longrightarrow> visibleMd l ns"
  "ns \<in> set (mdEntryPositions es) \<Longrightarrow> visibleMd (Entries es) ns"
proof (induction l and es arbitrary: ns and ns rule: mdPositions_mdEntryPositions.induct)
  case 1
  then show ?case by simp
next
  case (2 es)
  then show ?case by simp
next
  case 3
  then show ?case by simp
next
  case (4 name es)
  show ?case
  proof (cases "ns = [name] \<and> endsWith name ''.md''")
    case True
    then show ?thesis by (auto intro: visibleMd.here)
  next
    case False
    with "4.prems" have "ns \<in> set (mdEntryPositions es)"
      by (auto split: if_splits)
    then have "visibleMd (Entries es) ns"
      using "4.IH" by (auto split: if_splits)
    then show ?thesis
      by (cases rule: visibleMd.cases) (auto intro: visibleMd.intros)
  qed
next
  case (5 name sub es)
  show ?case
  proof (cases "name \<noteq> ''.obsidian'' \<and> name \<noteq> ''.git'' \<and>
      ns \<in> set (map ((#) name) (mdPositions sub))")
    case True
    then obtain ms where ms: "ns = name # ms" "ms \<in> set (mdPositions sub)"
      by auto
    with True "5.IH"(2) have "visibleMd sub ms"
      by auto
    with True ms(1) show ?thesis
      by (auto intro: visibleMd.below)
  next
    case False
    with "5.prems" have "ns \<in> set (mdEntryPositions es)"
      by (auto split: if_splits)
    then have "visibleMd (Entries es) ns"
      using "5.IH" by (auto split: if_splits)
    then show ?thesis
      by (cases rule: visibleMd.cases) (auto intro: visibleMd.intros)
  qed
qed

lemma positions_complete: "visibleMd l ns \<Longrightarrow> ns \<in> set (mdPositions l)"
proof (induction rule: visibleMd.induct)
  case (here name es)
  then show ?case by (auto simp: entry_positions_iff)
next
  case (below name sub es ns)
  then show ?case by (auto simp: entry_positions_iff)
qed

lemma positions_head:
  "ns \<in> set (mdEntryPositions es) \<Longrightarrow> ns \<noteq> [] \<and> hd ns \<in> entryName ` set es"
  by (auto simp: entry_positions_iff) force+

lemma positions_distinct:
  "wfListing l \<Longrightarrow> distinct (mdPositions l)"
  "distinct (map entryName es) \<Longrightarrow> wfEntries es \<Longrightarrow> distinct (mdEntryPositions es)"
proof (induction l and es rule: mdPositions_mdEntryPositions.induct)
  case 1
  then show ?case by simp
next
  case (2 es)
  then show ?case by simp
next
  case 3
  then show ?case by simp
next
  case (4 name es)
  have "[name] \<notin> set (mdEntryPositions es)"
    using positions_head [of "[name]" es] "4.prems"(1) by auto
  then show ?case
    using 4 by auto
next
  case (5 name sub es)
  have other: "\<And>ms. name # ms \<notin> set (mdEntryPositions es)"
    using positions_head "5.prems"(1) by fastforce
  have "distinct (map ((#) name) (mdPositions sub))"
    if "name \<noteq> ''.obsidian''" "name \<noteq> ''.git''"
    using that 5 by (simp add: distinct_map)
  then show ?case
    using 5 other by auto
qed

lemma scanEntries_append:
  "fst (scanEntries h dir (xs @ ys)) = fst (scanEntries h dir xs) @ fst (scanEntries h dir ys)"
proof (induction xs)
  case Nil
  then show ?case by simp
next
  case (Cons e xs)
  then show ?case by (cases e) auto
qed

lemma demoTree_scan:
  "getMarkdownFiles libHost ''/v'' demoTree =
     ([''/v/a.md'', ''/v/sub/c.md'', ''/v/z.md''], [ErrorReadingDirectory ''/v/locked''])"
  by code_simp

text \<open>
  C9. In a listing where no directory holds two entries of one name, the scanner returns
  the paths of a duplicate-free enumeration of exactly the positions of the entries that
  are not directories, end in \<^verbatim>\<open>.md\<close> and lie in no directory named \<^verbatim>\<open>.obsidian\<close> or
  \<^verbatim>\<open>.git\<close> beneath the root: each such file once, and nothing else. Where the host
  joins different positions to different paths, the returned paths are themselves
  pairwise different. The scanner is a total function, so the scan returns; and a
  directory that cannot be read changes nothing for its siblings: the scan of a directory
  that holds it returns what the scan without it returns.
\<close>

theorem C9_scanner_complete_once:
  assumes "wfListing l"
  shows "(\<exists>ps. distinct ps \<and> set ps = {ns. visibleMd l ns} \<and>
            fst (getMarkdownFiles h dir l) = map (pathOf h dir) ps) \<and>
         (inj_on (pathOf h dir) {ns. visibleMd l ns} \<longrightarrow>
            distinct (fst (getMarkdownFiles h dir l)) \<and>
            set (fst (getMarkdownFiles h dir l)) = pathOf h dir ` {ns. visibleMd l ns}) \<and>
         fst (getMarkdownFiles h dir (Entries (es1 @ DirEntry name Unreadable # es2))) =
           fst (getMarkdownFiles h dir (Entries (es1 @ es2)))"
proof -
  have s: "set (mdPositions l) = {ns. visibleMd l ns}"
    using positions_sound(1) positions_complete by blast
  have d: "distinct (mdPositions l)"
    using assms by (rule positions_distinct(1))
  have f: "fst (getMarkdownFiles h dir l) = map (pathOf h dir) (mdPositions l)"
    by (rule files_positions(1))
  have u: "fst (getMarkdownFiles h dir (Entries (es1 @ DirEntry name Unreadable # es2))) =
           fst (getMarkdownFiles h dir (Entries (es1 @ es2)))"
    by (simp add: scanEntries_append)
  show ?thesis
    using s d f u by (auto simp: distinct_map)
qed

theorem C9_scanner_complete_once_witness:
  "wfListing demoTree \<and>
   (\<exists>ps. distinct ps \<and> set ps = {ns. visibleMd demoTree ns} \<and>
         fst (getMarkdownFiles libHost ''/v'' demoTree) = map (pathOf libHost ''/v'') ps) \<and>
   getMarkdownFiles libHost ''/v'' demoTree =
     ([''/v/a.md'', ''/v/sub/c.md'', ''/v/z.md''], [ErrorReadingDirectory ''/v/locked''])"
proof -
  have wf: "wfListing demoTree"
    by (simp add: demoTree_def)
  show ?thesis
    using wf C9_scanner_complete_once [OF wf, of libHost "''/v''"] demoTree_scan by blast
qed

end
